theory Spec2Isabelle
  imports Complex_Main "HOL-Library.AList"
begin

section \<open>The BPPS instance generator\<close>

text \<open>
  A shallow embedding of \<^verbatim>\<open>generator/bpps_instance_generator.py\<close>: the class
  \<^verbatim>\<open>BPPSInstanceGenerator\<close> with its builder \<^verbatim>\<open>_generate_single_instance\<close>, its
  writer \<^verbatim>\<open>_write_instance_file\<close> and its sweep \<^verbatim>\<open>generate_instances\<close>.

  The module-level generator of Python's \<^verbatim>\<open>random\<close> and the output directory are
  global state of the program; they are threaded through the model as a record.
  An exception is a value of a sum type, together with the state in which it
  was raised: the generator and the files keep what was done before it. Left out are the console output (with
  the file name that the sweep computes again for its progress line), the
  creation of the output directory, and the command line and JSON functions
  around the generator. Writing a file always succeeds in the model.
\<close>

subsection \<open>The Python runtime the module calls into\<close>

datatype error = ValueError | KeyError | OverflowError

text \<open>
  Two parts of the standard library are parameters of the model, since their code
  is not part of the repository:
  \<^item> the Mersenne Twister behind \<^verbatim>\<open>random.seed\<close> and \<^verbatim>\<open>random.randint\<close>:
    \<open>seed_state\<close> is the generator state after \<^verbatim>\<open>random.seed(s)\<close>, and
    \<open>randbelow g w\<close> is \<^verbatim>\<open>_randbelow(w)\<close> in state \<open>g\<close>, with the next state;
  \<^item> binary floating point: \<open>floor_mul d v\<close> is \<^verbatim>\<open>floor(d * v)\<close> and
    \<open>ceil_mul d v\<close> is \<^verbatim>\<open>ceil(d * v)\<close> for an integer \<open>d\<close> and a float \<open>v\<close>
    (both raise on a product that is not finite), and \<open>percent a b\<close> is
    \<^verbatim>\<open>a / b * 100\<close> for integers \<open>a\<close> and \<open>b \<noteq> 0\<close>.
\<close>

record ('g, 'f) runtime =
  seed_state :: "int \<Rightarrow> 'g"
  randbelow :: "'g \<Rightarrow> int \<Rightarrow> int \<times> 'g"
  floor_mul :: "int \<Rightarrow> 'f \<Rightarrow> error + int"
  ceil_mul :: "int \<Rightarrow> 'f \<Rightarrow> error + int"
  percent :: "int \<Rightarrow> int \<Rightarrow> 'f"

text \<open>
  The calls the module makes to \<^verbatim>\<open>random\<close> are recorded, in order, in \<open>trace\<close>:
  \<open>Seed s\<close> for \<^verbatim>\<open>random.seed(s)\<close>, and \<open>Randint a b v\<close> for a call
  \<^verbatim>\<open>random.randint(a, b)\<close> that returned \<open>v\<close>.
  A file of the output directory is addressed by the directory and its name.
\<close>

datatype event = Seed int | Randint int int int

record 'g world =
  gen :: "'g"
  trace :: "event list"
  files :: "string \<times> string \<rightharpoonup> string"

definition random_seed :: "('g, 'f) runtime \<Rightarrow> int \<Rightarrow> 'g world \<Rightarrow> 'g world" where
  "random_seed R s w = w\<lparr>gen := seed_state R s, trace := trace w @ [Seed s]\<rparr>"

text \<open>
  \<^verbatim>\<open>random.randint(a, b)\<close> is \<^verbatim>\<open>randrange(a, b + 1)\<close>: it raises ValueError on an
  empty range and returns \<^verbatim>\<open>a + _randbelow(b + 1 - a)\<close> otherwise. The library
  promises \<^verbatim>\<open>0 <= _randbelow(w) < w\<close>; the reduction modulo the width keeps that promise
  for every choice of the parameter and changes nothing for a generator that
  meets it.
\<close>

definition random_randint ::
  "('g, 'f) runtime \<Rightarrow> int \<Rightarrow> int \<Rightarrow> 'g world
     \<Rightarrow> (error \<times> 'g world) + (int \<times> 'g world)" where
  "random_randint R a b w =
     (let width = b + 1 - a in
      if width > 0 then
        (case randbelow R (gen w) width of
           (r, g') \<Rightarrow>
             (let v = a + r mod width in
              Inr (v, w\<lparr>gen := g', trace := trace w @ [Randint a b v]\<rparr>)))
      else Inl (ValueError, w))"

text \<open>\<^verbatim>\<open>range(m)\<close>, and subscription \<^verbatim>\<open>d[k]\<close> of a dictionary kept in insertion order.\<close>

definition py_range :: "int \<Rightarrow> int list" where
  "py_range m = [0..m - 1]"

definition getitem :: "(int \<times> 'v) list \<Rightarrow> int \<Rightarrow> error + 'v" where
  "getitem d k = (case map_of d k of None \<Rightarrow> Inl KeyError | Some v \<Rightarrow> Inr v)"

text \<open>The decimal text of an integer, as an f-string renders it.\<close>

definition digit_char :: "nat \<Rightarrow> char" where
  "digit_char k = ''0123456789'' ! k"

function str_nat :: "nat \<Rightarrow> string" where
  "str_nat k = (if k < 10 then [digit_char k] else str_nat (k div 10) @ [digit_char (k mod 10)])"
  by pat_completeness auto
termination
  by (relation "measure id") auto

declare str_nat.simps [simp del]

definition str_int :: "int \<Rightarrow> string" where
  "str_int i = (if i < 0 then CHR ''-'' # str_nat (nat (- i)) else str_nat (nat i))"

abbreviation TAB :: char where
  "TAB \<equiv> CHR 0x09"

abbreviation NL :: char where
  "NL \<equiv> CHR 0x0A"

subsection \<open>Configuration\<close>

record 'f InstanceConfig =
  capacities :: "int list"
  num_items :: "int list"
  num_classes :: "int list"
  item_weight_ranges :: "('f \<times> 'f) list"
  setup_weight_ranges :: "('f \<times> 'f) list"
  setup_cost_flags :: "int list"
  seeds :: "int list"
  min_items_per_class :: int
  output_directory :: string

subsection \<open>The builder\<close>

definition generate_filename ::
  "int \<Rightarrow> int \<Rightarrow> int \<Rightarrow> int \<Rightarrow> int \<Rightarrow> int \<Rightarrow> int \<Rightarrow> int \<Rightarrow> int \<Rightarrow> string" where
  "generate_filename d n m w_min w_max s_min s_max f seed =
     ''bpps_d'' @ str_int d @ ''n'' @ str_int n @ ''m'' @ str_int m
     @ ''w'' @ str_int w_min @ ''_'' @ str_int w_max
     @ ''s'' @ str_int s_min @ ''_'' @ str_int s_max
     @ ''f'' @ str_int f @ ''_seed'' @ str_int seed @ ''.txt''"

text \<open>
  The dictionary comprehension \<^verbatim>\<open>{cl: random.randint(a, b) for cl in range(m)}\<close>:
  one draw per key, in the order of the keys.
\<close>

fun draw_dict ::
  "('g, 'f) runtime \<Rightarrow> int \<Rightarrow> int \<Rightarrow> int list \<Rightarrow> 'g world
     \<Rightarrow> (error \<times> 'g world) + ((int \<times> int) list \<times> 'g world)" where
  "draw_dict R a b [] w = Inr ([], w)"
| "draw_dict R a b (cl # cls) w =
     (case random_randint R a b w of
        Inl e \<Rightarrow> Inl e
      | Inr (v, w') \<Rightarrow>
          (case draw_dict R a b cls w' of
             Inl e \<Rightarrow> Inl e
           | Inr (d, w'') \<Rightarrow> Inr ((cl, v) # d, w'')))"

text \<open>
  The loop \<^verbatim>\<open>for j in range(n)\<close> that assigns the items; the numeral counts the
  iterations that remain.
\<close>

fun assign_items ::
  "('g, 'f) runtime \<Rightarrow> int \<Rightarrow> int \<Rightarrow> int \<Rightarrow> nat \<Rightarrow> (int \<times> int list) list \<Rightarrow> 'g world
     \<Rightarrow> (error \<times> 'g world) + ((int \<times> int list) list \<times> 'g world)" where
  "assign_items R m w_min w_max 0 classes w = Inr (classes, w)"
| "assign_items R m w_min w_max (Suc j) classes w =
     (case random_randint R 0 (m - 1) w of
        Inl e \<Rightarrow> Inl e
      | Inr (class_id, w1) \<Rightarrow>
          (case random_randint R w_min w_max w1 of
             Inl e \<Rightarrow> Inl e
           | Inr (item_weight, w2) \<Rightarrow>
               (case getitem classes class_id of
                  Inl e \<Rightarrow> Inl (e, w2)
                | Inr ws \<Rightarrow>
                    assign_items R m w_min w_max j
                      (AList.update class_id (ws @ [item_weight]) classes) w2)))"

text \<open>The loop \<^verbatim>\<open>for cl in classes: setups[cl] = random.randint(s_min, s_max)\<close>.\<close>

fun draw_setups ::
  "('g, 'f) runtime \<Rightarrow> int \<Rightarrow> int \<Rightarrow> int list \<Rightarrow> (int \<times> int) list \<Rightarrow> 'g world
     \<Rightarrow> (error \<times> 'g world) + ((int \<times> int) list \<times> 'g world)" where
  "draw_setups R s_min s_max [] setups w = Inr (setups, w)"
| "draw_setups R s_min s_max (cl # cls) setups w =
     (case random_randint R s_min s_max w of
        Inl e \<Rightarrow> Inl e
      | Inr (setup_weight, w') \<Rightarrow>
          draw_setups R s_min s_max cls (AList.update cl setup_weight setups) w')"

text \<open>The local variables of one attempt, once all its draws are made.\<close>

record drawn =
  bin_cost :: int
  classes :: "(int \<times> int list) list"
  setup_costs :: "(int \<times> int) list"
  setups :: "(int \<times> int) list"
  items :: "int list"

text \<open>
  The first part of the loop body: reseeding, the dictionaries, the setup costs,
  the items, the flattened item list and the setup weights, in the order of the
  source.
\<close>

definition draw_instance ::
  "('g, 'f) runtime \<Rightarrow> int \<Rightarrow> int \<Rightarrow> int \<Rightarrow> int \<Rightarrow> int \<Rightarrow> int \<Rightarrow> int \<Rightarrow> int \<Rightarrow> 'g world
     \<Rightarrow> (error \<times> 'g world) + (drawn \<times> 'g world)" where
  "draw_instance R n m w_min w_max s_min s_max f sd w =
     (let w0 = random_seed R sd w;
          classes0 = map (\<lambda>cl. (cl, [])) (py_range m);
          setups0 = map (\<lambda>cl. (cl, 0)) (py_range m)
      in
      case (if f = 0 then Inr ((map (\<lambda>cl. (cl, 0)) (py_range m), 1), w0)
            else (case draw_dict R 1 5 (py_range m) w0 of
                    Inl e \<Rightarrow> Inl e
                  | Inr (sc, w1) \<Rightarrow> Inr ((sc, 10), w1))) of
        Inl e \<Rightarrow> Inl e
      | Inr ((sc, bc), w1) \<Rightarrow>
          (case assign_items R m w_min w_max (nat n) classes0 w1 of
             Inl e \<Rightarrow> Inl e
           | Inr (cs, w2) \<Rightarrow>
               (case draw_setups R s_min s_max (map fst cs) setups0 w2 of
                  Inl e \<Rightarrow> Inl e
                | Inr (su, w3) \<Rightarrow>
                    Inr (\<lparr>bin_cost = bc, classes = cs, setup_costs = sc, setups = su,
                          items = concat (map snd cs)\<rparr>, w3))))"

text \<open>
  The list \<^verbatim>\<open>[len(classes[i]) for i in range(m)]\<close> and the acceptance test on its
  minimum; \<^verbatim>\<open>min\<close> of an empty list raises ValueError.
\<close>

fun class_sizes :: "(int \<times> int list) list \<Rightarrow> int list \<Rightarrow> error + int list" where
  "class_sizes cs [] = Inr []"
| "class_sizes cs (i # is) =
     (case getitem cs i of
        Inl e \<Rightarrow> Inl e
      | Inr ws \<Rightarrow>
          (case class_sizes cs is of
             Inl e \<Rightarrow> Inl e
           | Inr ls \<Rightarrow> Inr (int (length ws) # ls)))"

definition accepted :: "int \<Rightarrow> int \<Rightarrow> (int \<times> int list) list \<Rightarrow> error + bool" where
  "accepted m min_items cs =
     (case class_sizes cs (py_range m) of
        Inl e \<Rightarrow> Inl e
      | Inr ls \<Rightarrow> if ls = [] then Inl ValueError else Inr (min_list ls \<ge> min_items))"

subsection \<open>The writer\<close>

text \<open>
  The loop over \<^verbatim>\<open>range(m)\<close> that writes one line for each non-empty class.
  \<open>out\<close> is the text written to the file so far; when a subscription raises,
  the file is left with it.
\<close>

fun write_classes ::
  "int list \<Rightarrow> (int \<times> int list) list \<Rightarrow> (int \<times> int) list \<Rightarrow> (int \<times> int) list
     \<Rightarrow> string \<Rightarrow> (error \<times> string) + string" where
  "write_classes [] cs sc su out = Inr out"
| "write_classes (cl # cls) cs sc su out =
     (case getitem cs cl of
        Inl e \<Rightarrow> Inl (e, out)
      | Inr ws \<Rightarrow>
          if ws \<noteq> [] then
            (case getitem sc cl of
               Inl e \<Rightarrow> Inl (e, out)
             | Inr c \<Rightarrow>
                 (case getitem su cl of
                    Inl e \<Rightarrow> Inl (e, out)
                  | Inr s \<Rightarrow>
                      write_classes cls cs sc su
                        (out @ str_int (- c) @ [TAB] @ str_int s @ [TAB]
                         @ str_int (int (length ws)) @ [NL])))
          else write_classes cls cs sc su out)"

definition write_items :: "int list \<Rightarrow> string" where
  "write_items ws = concat (map (\<lambda>item_weight. str_int item_weight @ [NL]) ws)"

definition write_instance_file ::
  "'f InstanceConfig \<Rightarrow> int \<Rightarrow> int \<Rightarrow> int \<Rightarrow> int \<Rightarrow> int \<Rightarrow> int \<Rightarrow> int \<Rightarrow> int \<Rightarrow> int
     \<Rightarrow> drawn \<Rightarrow> 'g world \<Rightarrow> (error \<times> 'g world) + 'g world" where
  "write_instance_file cfg d n m w_min w_max s_min s_max f seed inst w =
     (let filename = generate_filename d n m w_min w_max s_min s_max f seed;
          filepath = (output_directory cfg, filename);
          header = str_int n @ [TAB] @ str_int m @ [TAB] @ str_int d @ [TAB]
                   @ str_int (bin_cost inst) @ [NL]
      in
      case write_classes (py_range m) (classes inst) (setup_costs inst) (setups inst) header of
        Inl (e, out) \<Rightarrow> Inl (e, w\<lparr>files := (files w)(filepath \<mapsto> out)\<rparr>)
      | Inr out \<Rightarrow>
          Inr (w\<lparr>files := (files w)(filepath \<mapsto> out @ write_items (items inst))\<rparr>))"

subsection \<open>The retry loop\<close>

text \<open>One pass through the body of the \<^verbatim>\<open>while\<close> loop; the result is the new \<^verbatim>\<open>found\<close>.\<close>

definition attempt ::
  "('g, 'f) runtime \<Rightarrow> 'f InstanceConfig \<Rightarrow> int \<Rightarrow> int \<Rightarrow> int \<Rightarrow> int \<Rightarrow> int \<Rightarrow> int \<Rightarrow> int
     \<Rightarrow> int \<Rightarrow> int \<Rightarrow> bool \<Rightarrow> int \<Rightarrow> 'g world
     \<Rightarrow> (error \<times> 'g world) + (bool \<times> 'g world)" where
  "attempt R cfg d n m w_min w_max s_min s_max f seed found k w =
     (case draw_instance R n m w_min w_max s_min s_max f (seed + k) w of
        Inl e \<Rightarrow> Inl e
      | Inr (inst, w') \<Rightarrow>
          (case accepted m (min_items_per_class cfg) (classes inst) of
             Inl e \<Rightarrow> Inl (e, w')
           | Inr ok \<Rightarrow>
               if ok then
                 (case write_instance_file cfg d n m w_min w_max s_min s_max f seed inst w' of
                    Inl e \<Rightarrow> Inl e
                  | Inr w'' \<Rightarrow> Inr (True, w''))
               else Inr (found, w')))"

definition max_attempts :: int where
  "max_attempts = 1000"

function while_loop ::
  "('g, 'f) runtime \<Rightarrow> 'f InstanceConfig \<Rightarrow> int \<Rightarrow> int \<Rightarrow> int \<Rightarrow> int \<Rightarrow> int \<Rightarrow> int \<Rightarrow> int
     \<Rightarrow> int \<Rightarrow> int \<Rightarrow> bool \<Rightarrow> int \<Rightarrow> 'g world
     \<Rightarrow> (error \<times> 'g world) + (bool \<times> 'g world)" where
  "while_loop R cfg d n m w_min w_max s_min s_max f seed found k w =
     (if \<not> found \<and> k < max_attempts then
        (case attempt R cfg d n m w_min w_max s_min s_max f seed found k w of
           Inl e \<Rightarrow> Inl e
         | Inr (found', w') \<Rightarrow>
             while_loop R cfg d n m w_min w_max s_min s_max f seed found' (k + 1) w')
      else Inr (found, w))"
  by pat_completeness auto
termination
  by (relation "measure (\<lambda>(R, cfg, d, n, m, w_min, w_max, s_min, s_max, f, seed, found, k, w).
        nat (max_attempts - k))") auto

declare while_loop.simps [simp del]

definition generate_single_instance ::
  "('g, 'f) runtime \<Rightarrow> 'f InstanceConfig \<Rightarrow> int \<Rightarrow> int \<Rightarrow> int \<Rightarrow> 'f \<Rightarrow> 'f \<Rightarrow> 'f \<Rightarrow> 'f
     \<Rightarrow> int \<Rightarrow> int \<Rightarrow> 'g world \<Rightarrow> (error \<times> 'g world) + (bool \<times> 'g world)" where
  "generate_single_instance R cfg d n m v1 v2 s1 s2 f seed w =
     (case floor_mul R d v1 of
        Inl e \<Rightarrow> Inl (e, w)
      | Inr w_min \<Rightarrow>
          (case ceil_mul R d v2 of
             Inl e \<Rightarrow> Inl (e, w)
           | Inr w_max \<Rightarrow>
               (case floor_mul R d s1 of
                  Inl e \<Rightarrow> Inl (e, w)
                | Inr s_min \<Rightarrow>
                    (case ceil_mul R d s2 of
                       Inl e \<Rightarrow> Inl (e, w)
                     | Inr s_max \<Rightarrow>
                         while_loop R cfg d n m w_min w_max s_min s_max f seed False 0 w))))"

subsection \<open>The sweep\<close>

text \<open>
  An entry of \<^verbatim>\<open>failed_instances\<close>: the values under the keys
  \<^verbatim>\<open>d, n, m, v1, v2, s1, s2, f, seed\<close>, in this order.
\<close>

type_synonym 'f params = "int \<times> int \<times> int \<times> 'f \<times> 'f \<times> 'f \<times> 'f \<times> int \<times> int"

text \<open>The value under \<^verbatim>\<open>success_rate\<close> is a float, or the integer 0 of the else branch.\<close>

datatype 'f pynum = PyInt int | PyFloat 'f

record 'f statistics =
  total_attempted :: int
  successful :: int
  failed :: int
  success_rate :: "'f pynum"
  failed_instances :: "'f params list"

text \<open>
  The seven nested \<^verbatim>\<open>for\<close> loops visit the combinations in the order of this
  comprehension, the class counts outermost and the seeds innermost.
\<close>

definition combinations :: "'f InstanceConfig \<Rightarrow> 'f params list" where
  "combinations cfg =
     [(d, n, m, v1, v2, s1, s2, f, seed).
        m \<leftarrow> num_classes cfg, n \<leftarrow> num_items cfg, d \<leftarrow> capacities cfg,
        (v1, v2) \<leftarrow> item_weight_ranges cfg, (s1, s2) \<leftarrow> setup_weight_ranges cfg,
        f \<leftarrow> setup_cost_flags cfg, seed \<leftarrow> seeds cfg]"

text \<open>The innermost loop body, run for each combination in turn.\<close>

fun sweep_loop ::
  "('g, 'f) runtime \<Rightarrow> 'f InstanceConfig \<Rightarrow> 'f params list \<Rightarrow> int \<Rightarrow> int \<Rightarrow> 'f params list
     \<Rightarrow> 'g world
     \<Rightarrow> (error \<times> 'g world) + ((int \<times> int \<times> 'f params list) \<times> 'g world)" where
  "sweep_loop R cfg [] total_instances successful_instances failed_list w =
     Inr ((total_instances, successful_instances, failed_list), w)"
| "sweep_loop R cfg ((d, n, m, v1, v2, s1, s2, f, seed) # rest)
       total_instances successful_instances failed_list w =
     (case generate_single_instance R cfg d n m v1 v2 s1 s2 f seed w of
        Inl e \<Rightarrow> Inl e
      | Inr (success, w') \<Rightarrow>
          if success then
            sweep_loop R cfg rest (total_instances + 1) (successful_instances + 1)
              failed_list w'
          else
            sweep_loop R cfg rest (total_instances + 1) successful_instances
              (failed_list @ [(d, n, m, v1, v2, s1, s2, f, seed)]) w')"

definition generate_instances ::
  "('g, 'f) runtime \<Rightarrow> 'f InstanceConfig \<Rightarrow> 'g world
     \<Rightarrow> (error \<times> 'g world) + ('f statistics \<times> 'g world)" where
  "generate_instances R cfg w =
     (case sweep_loop R cfg (combinations cfg) 0 0 [] w of
        Inl e \<Rightarrow> Inl e
      | Inr ((total_instances, successful_instances, failed_list), w') \<Rightarrow>
          Inr (\<lparr>total_attempted = total_instances,
                successful = successful_instances,
                failed = int (length failed_list),
                success_rate =
                  (if total_instances > 0
                   then PyFloat (percent R successful_instances total_instances)
                   else PyInt 0),
                failed_instances = failed_list\<rparr>, w'))"

subsection \<open>Reading an instance file\<close>

text \<open>
  The claims about the file format are stated on the text of the file, read back
  with the functions of this section: the text is cut at every newline, a line
  at every tab, and a field is read as a decimal integer.
\<close>

fun split_on :: "char \<Rightarrow> string \<Rightarrow> string list" where
  "split_on c [] = [[]]"
| "split_on c (x # xs) =
     (if x = c then [] # split_on c xs
      else (case split_on c xs of
              [] \<Rightarrow> [[x]]
            | y # ys \<Rightarrow> (x # y) # ys))"

definition newline_terminated :: "string \<Rightarrow> bool" where
  "newline_terminated s = (s = [] \<or> last s = NL)"

definition file_lines :: "string \<Rightarrow> string list" where
  "file_lines s = butlast (split_on NL s)"

definition tab_fields :: "string \<Rightarrow> string list" where
  "tab_fields l = split_on TAB l"

definition digit_val :: "char \<Rightarrow> nat" where
  "digit_val c = of_char c - 48"

definition read_nat :: "string \<Rightarrow> nat" where
  "read_nat s = foldl (\<lambda>a c. 10 * a + digit_val c) 0 s"

definition read_int :: "string \<Rightarrow> int" where
  "read_int s =
     (case s of
        [] \<Rightarrow> 0
      | c # r \<Rightarrow> if c = CHR ''-'' then - int (read_nat r) else int (read_nat s))"

text \<open>
  The table of the integers of a file, and its three parts: the first row, the
  rows of three fields that follow it, and the rows after those.
\<close>

definition read_table :: "string \<Rightarrow> int list list" where
  "read_table s = map (\<lambda>l. map read_int (tab_fields l)) (file_lines s)"

definition header_row :: "string \<Rightarrow> int list" where
  "header_row s = (case read_table s of [] \<Rightarrow> [] | r # rs \<Rightarrow> r)"

definition record_rows :: "string \<Rightarrow> int list list" where
  "record_rows s = takeWhile (\<lambda>r. length r = 3) (tl (read_table s))"

definition item_rows :: "string \<Rightarrow> int list list" where
  "item_rows s = dropWhile (\<lambda>r. length r = 3) (tl (read_table s))"

subsection \<open>Describing one attempt\<close>

text \<open>
  An attempt is described by what it drew: the setup cost of each class, the
  pair of class index and weight of each item in the order of the items, and the
  setup weight of each class. \<open>picks cl asg\<close> are the weights of the items that
  went to class \<open>cl\<close>, in the order they were drawn.
\<close>

definition picks :: "int \<Rightarrow> (int \<times> int) list \<Rightarrow> int list" where
  "picks cl asg = map snd (filter (\<lambda>p. fst p = cl) asg)"

definition item_events :: "int \<Rightarrow> int \<Rightarrow> int \<Rightarrow> (int \<times> int) list \<Rightarrow> event list" where
  "item_events m w_min w_max asg =
     concat (map (\<lambda>p. [Randint 0 (m - 1) (fst p), Randint w_min w_max (snd p)]) asg)"

definition draw_events ::
  "int \<Rightarrow> int \<Rightarrow> int \<Rightarrow> int \<Rightarrow> int \<Rightarrow> int \<Rightarrow> int \<Rightarrow> int list \<Rightarrow> (int \<times> int) list \<Rightarrow> int list
     \<Rightarrow> event list" where
  "draw_events m w_min w_max s_min s_max f sd costs asg sws =
     Seed sd # (if f = 0 then [] else map (Randint 1 5) costs)
     @ item_events m w_min w_max asg @ map (Randint s_min s_max) sws"

fun seeds_of :: "event list \<Rightarrow> int list" where
  "seeds_of [] = []"
| "seeds_of (Seed s # es) = s # seeds_of es"
| "seeds_of (Randint a b v # es) = seeds_of es"

text \<open>
  What one attempt may draw: a setup cost for each class (all 0 when \<open>f = 0\<close>, in
  \<open>[1, 5]\<close> otherwise), for each of the \<open>n\<close> items a class index in \<open>[0, m - 1]\<close>
  and a weight in \<open>[w_min, w_max]\<close>, and for each class a setup weight in
  \<open>[s_min, s_max]\<close>.
\<close>

definition valid_draw ::
  "int \<Rightarrow> int \<Rightarrow> int \<Rightarrow> int \<Rightarrow> int \<Rightarrow> int \<Rightarrow> int \<Rightarrow> int list \<Rightarrow> (int \<times> int) list \<Rightarrow> int list
     \<Rightarrow> bool" where
  "valid_draw n m w_min w_max s_min s_max f costs asg sws \<longleftrightarrow>
     length costs = nat m \<and> length asg = nat n \<and> length sws = nat m
     \<and> (if f = 0 then costs = replicate (nat m) 0 else \<forall>c \<in> set costs. 1 \<le> c \<and> c \<le> 5)
     \<and> (\<forall>p \<in> set asg. 0 \<le> fst p \<and> fst p \<le> m - 1 \<and> w_min \<le> snd p \<and> snd p \<le> w_max)
     \<and> (\<forall>s \<in> set sws. s_min \<le> s \<and> s \<le> s_max)"

text \<open>The acceptance test on what was drawn.\<close>

definition enough_items :: "int \<Rightarrow> int \<Rightarrow> (int \<times> int) list \<Rightarrow> bool" where
  "enough_items m min_items asg \<longleftrightarrow>
     (\<forall>cl \<in> set (py_range m). min_items \<le> int (length (picks cl asg)))"

text \<open>
  The order of the draws in the words of the specification: the items first,
  then the setup weights, and the setup costs last, when \<open>f = 1\<close>.
\<close>

definition spec_draw_events ::
  "int \<Rightarrow> int \<Rightarrow> int \<Rightarrow> int \<Rightarrow> int \<Rightarrow> int \<Rightarrow> int \<Rightarrow> int list \<Rightarrow> (int \<times> int) list \<Rightarrow> int list
     \<Rightarrow> event list" where
  "spec_draw_events m w_min w_max s_min s_max f sd costs asg sws =
     Seed sd # item_events m w_min w_max asg @ map (Randint s_min s_max) sws
     @ (if f = 1 then map (Randint 1 5) costs else [])"


subsection \<open>The file format\<close>

text \<open>
  The file format in the words of the specification: a table of integers, one
  row per line, the fields of a row separated by tabs and every line ended by a
  newline. The first row is \<open>n, m, d\<close> and the bin cost; then one row for each
  class that has items, in the order of the class indices, with the negated
  setup cost, the setup weight and the number of items; then one row for each
  item weight, class by class in the order of the class indices, the items of a
  class in the order they were drawn.
\<close>

fun join_tab :: "string list \<Rightarrow> string" where
  "join_tab [] = []"
| "join_tab [x] = x"
| "join_tab (x # y # ys) = x @ [TAB] @ join_tab (y # ys)"

definition render :: "int list list \<Rightarrow> string" where
  "render rows = concat (map (\<lambda>row. join_tab (map str_int row) @ [NL]) rows)"

definition class_rows :: "int \<Rightarrow> int list \<Rightarrow> (int \<times> int) list \<Rightarrow> int list \<Rightarrow> int list list" where
  "class_rows m costs asg sws =
     map (\<lambda>cl. [- (costs ! nat cl), sws ! nat cl, int (length (picks cl asg))])
       (filter (\<lambda>cl. picks cl asg \<noteq> []) (py_range m))"

definition weight_rows :: "int \<Rightarrow> (int \<times> int) list \<Rightarrow> int list list" where
  "weight_rows m asg = map (\<lambda>x. [x]) (concat (map (\<lambda>cl. picks cl asg) (py_range m)))"

definition instance_table ::
  "int \<Rightarrow> int \<Rightarrow> int \<Rightarrow> int \<Rightarrow> int list \<Rightarrow> (int \<times> int) list \<Rightarrow> int list \<Rightarrow> int list list" where
  "instance_table n m d f costs asg sws =
     [n, m, d, if f = 0 then 1 else 10] # class_rows m costs asg sws @ weight_rows m asg"

subsection \<open>A small runtime for evaluating the model\<close>

text \<open>
  A linear congruential generator and exact rational arithmetic, to run the
  model on concrete inputs. Nothing below depends on this choice except the
  evaluations that name it.
\<close>

definition lcg_runtime :: "(int, rat) runtime" where
  "lcg_runtime =
     \<lparr>seed_state = (\<lambda>s. \<bar>s\<bar>),
      randbelow = (\<lambda>g w. ((g div 65536) mod 32768, (g * 1103515245 + 12345) mod 2147483648)),
      floor_mul = (\<lambda>d v. Inr \<lfloor>of_int d * v\<rfloor>),
      ceil_mul = (\<lambda>d v. Inr \<lceil>of_int d * v\<rceil>),
      percent = (\<lambda>a b. of_int a / of_int b * 100)\<rparr>"

definition empty_world :: "int world" where
  "empty_world = \<lparr>gen = 0, trace = [], files = Map.empty\<rparr>"

subsection \<open>Example inputs\<close>

text \<open>
  The boundary scenario of the specification (2 items, 5 classes, at least 2 items
  per class); a sweep of three combinations of which the last is infeasible; a
  configuration without seeds; a configuration whose item-weight pair is not
  ordered; the smallest feasible configuration; and a state in which the
  generator has been used and the output directory holds an old file.
\<close>

definition boundary_cfg :: "rat InstanceConfig" where
  "boundary_cfg =
     \<lparr>capacities = [200], num_items = [2], num_classes = [5],
      item_weight_ranges = [(1 / 20, 3 / 20)], setup_weight_ranges = [(1 / 100, 1 / 10)],
      setup_cost_flags = [0], seeds = [0], min_items_per_class = 2,
      output_directory = ''generated_instances''\<rparr>"

definition scenario_cfg :: "rat InstanceConfig" where
  "scenario_cfg =
     \<lparr>capacities = [200], num_items = [2, 4, 1], num_classes = [1],
      item_weight_ranges = [(1 / 20, 3 / 20)], setup_weight_ranges = [(1 / 100, 1 / 10)],
      setup_cost_flags = [0], seeds = [0], min_items_per_class = 2,
      output_directory = ''generated_instances''\<rparr>"

definition no_seeds_cfg :: "rat InstanceConfig" where
  "no_seeds_cfg =
     \<lparr>capacities = [200], num_items = [10], num_classes = [5],
      item_weight_ranges = [(1 / 20, 3 / 20)], setup_weight_ranges = [(1 / 100, 1 / 10)],
      setup_cost_flags = [0], seeds = [], min_items_per_class = 2,
      output_directory = ''generated_instances''\<rparr>"

definition unordered_cfg :: "rat InstanceConfig" where
  "unordered_cfg =
     \<lparr>capacities = [200], num_items = [1], num_classes = [1],
      item_weight_ranges = [(3 / 20, 149 / 1000)], setup_weight_ranges = [(1 / 100, 1 / 10)],
      setup_cost_flags = [0], seeds = [0], min_items_per_class = 1,
      output_directory = ''generated_instances''\<rparr>"

definition unit_cfg :: "rat InstanceConfig" where
  "unit_cfg =
     \<lparr>capacities = [200], num_items = [1], num_classes = [1],
      item_weight_ranges = [(1 / 20, 3 / 20)], setup_weight_ranges = [(1 / 100, 1 / 10)],
      setup_cost_flags = [1], seeds = [0], min_items_per_class = 1,
      output_directory = ''generated_instances''\<rparr>"


section \<open>Properties\<close>

subsection \<open>Draws\<close>

lemma randint_Inr:
  assumes "random_randint R a b w = Inr (v, u)"
  shows "a \<le> v" and "v \<le> b" and "trace u = trace w @ [Randint a b v]" and "files u = files w"
proof -
  from assms have pos: "0 < b + 1 - a"
    by (auto simp: random_randint_def Let_def split: if_splits)
  obtain r g' where rb: "randbelow R (gen w) (b + 1 - a) = (r, g')"
    by (cases "randbelow R (gen w) (b + 1 - a)")
  from assms pos rb have v: "v = a + r mod (b + 1 - a)"
    and u: "u = w\<lparr>gen := g', trace := trace w @ [Randint a b v]\<rparr>"
    by (auto simp: random_randint_def Let_def)
  from pos have "0 \<le> r mod (b + 1 - a)" and "r mod (b + 1 - a) < b + 1 - a" by simp_all
  with v show "a \<le> v" and "v \<le> b" by linarith+
  from u show "trace u = trace w @ [Randint a b v]" and "files u = files w" by simp_all
qed

lemma randint_Inl: "random_randint R a b w = Inl e \<longleftrightarrow> b < a \<and> e = (ValueError, w)"
  by (auto simp: random_randint_def Let_def split: prod.splits)

lemma randint_ok: "a \<le> b \<Longrightarrow> \<exists>v u. random_randint R a b w = Inr (v, u)"
  by (cases "random_randint R a b w") (auto simp: randint_Inl)

lemma sweep_loop_counts:
  "sweep_loop R cfg ts t s fl w = Inr ((t', s', fl'), w') \<Longrightarrow>
     t' = t + int (length ts) \<and> s' + int (length fl') = s + int (length fl) + int (length ts)"
proof (induction ts arbitrary: t s fl w)
  case Nil
  then show ?case by simp
next
  case (Cons p ts)
  obtain d n m v1 v2 s1 s2 f sd where p: "p = (d, n, m, v1, v2, s1, s2, f, sd)"
    by (cases p) auto
  from Cons.prems p obtain ok u where
    g: "generate_single_instance R cfg d n m v1 v2 s1 s2 f sd w = Inr (ok, u)"
    by (auto split: sum.splits)
  show ?case
  proof (cases ok)
    case True
    with Cons.prems p g have "sweep_loop R cfg ts (t + 1) (s + 1) fl u = Inr ((t', s', fl'), w')"
      by simp
    from Cons.IH [OF this] show ?thesis by simp
  next
    case False
    with Cons.prems p g have
      "sweep_loop R cfg ts (t + 1) s (fl @ [(d, n, m, v1, v2, s1, s2, f, sd)]) u = Inr ((t', s', fl'), w')"
      by simp
    from Cons.IH [OF this] show ?thesis by simp
  qed
qed

lemma py_range_length [simp]: "length (py_range m) = nat m"
  by (simp add: py_range_def)

lemma py_range_set [simp]: "set (py_range m) = {0..m - 1}"
  by (simp add: py_range_def)

lemma py_range_distinct [simp]: "distinct (py_range m)"
  by (simp add: py_range_def)

lemma py_range_empty [simp]: "py_range m = [] \<longleftrightarrow> m \<le> 0"
  by (auto simp: py_range_def)

lemma getitem_Inr: "getitem d k = Inr v \<longleftrightarrow> map_of d k = Some v"
  by (simp add: getitem_def split: option.splits)

lemma getitem_Inl: "getitem d k = Inl e \<longleftrightarrow> map_of d k = None \<and> e = KeyError"
  by (auto simp: getitem_def split: option.splits)

lemma update_present:
  "distinct (map fst al) \<Longrightarrow> map_of al k = Some v0 \<Longrightarrow>
     AList.update k v al = map (\<lambda>(k', v'). (k', if k' = k then v else v')) al"
proof (induction al)
  case Nil
  then show ?case by simp
next
  case (Cons p al)
  obtain k' v' where p: "p = (k', v')" by (cases p)
  show ?case
  proof (cases "k' = k")
    case True
    with Cons.prems p have "k \<notin> fst ` set al" by simp
    then have "map (\<lambda>(k', v'). (k', if k' = k then v else v')) al = al"
      by (induction al) auto
    with True p show ?thesis by simp
  next
    case False
    with Cons p show ?thesis by simp
  qed
qed

lemma picks_Nil [simp]: "picks cl [] = []"
  by (simp add: picks_def)

lemma picks_Cons: "picks cl ((c, x) # asg) = (if c = cl then x # picks cl asg else picks cl asg)"
  by (simp add: picks_def)

lemma assign_items_char:
  assumes "assign_items R m w_min w_max j cs w = Inr (cs', w')"
    and "distinct (map fst cs)"
  shows "\<exists>asg. length asg = j
      \<and> (\<forall>p \<in> set asg. 0 \<le> fst p \<and> fst p \<le> m - 1 \<and> w_min \<le> snd p \<and> snd p \<le> w_max)
      \<and> trace w' = trace w @ item_events m w_min w_max asg
      \<and> files w' = files w
      \<and> cs' = map (\<lambda>(cl, ws). (cl, ws @ picks cl asg)) cs"
  using assms
proof (induction j arbitrary: cs w)
  case 0
  then show ?case by (auto simp: item_events_def intro!: exI [of _ "[]"])
next
  case (Suc j)
  from Suc.prems(1) obtain c w1 where d1: "random_randint R 0 (m - 1) w = Inr (c, w1)"
    by (auto split: sum.splits)
  from Suc.prems(1) d1 obtain x w2 where d2: "random_randint R w_min w_max w1 = Inr (x, w2)"
    by (auto split: sum.splits)
  from Suc.prems(1) d1 d2 obtain ws where g: "map_of cs c = Some ws"
    by (auto simp: getitem_Inr split: sum.splits)
  let ?cs1 = "AList.update c (ws @ [x]) cs"
  from Suc.prems(1) d1 d2 g have rest: "assign_items R m w_min w_max j ?cs1 w2 = Inr (cs', w')"
    by (simp add: getitem_def)
  have upd: "?cs1 = map (\<lambda>(k', v'). (k', if k' = c then ws @ [x] else v')) cs"
    using Suc.prems(2) g by (rule update_present)
  have dist1: "distinct (map fst ?cs1)"
    using Suc.prems(2) by (simp add: upd case_prod_unfold comp_def)
  from Suc.IH [OF rest dist1] obtain asg where
    len: "length asg = j"
    and rng: "\<forall>p \<in> set asg. 0 \<le> fst p \<and> fst p \<le> m - 1 \<and> w_min \<le> snd p \<and> snd p \<le> w_max"
    and tr: "trace w' = trace w2 @ item_events m w_min w_max asg"
    and fl: "files w' = files w2"
    and cs': "cs' = map (\<lambda>(cl, ws). (cl, ws @ picks cl asg)) ?cs1"
    by blast
  have same: "map_of cs k = Some v \<Longrightarrow> k = c \<Longrightarrow> v = ws" for k v
    using g by simp
  have "cs' = map (\<lambda>(cl, ws). (cl, ws @ picks cl ((c, x) # asg))) cs"
    unfolding cs' upd using Suc.prems(2) same
    by (auto simp: picks_Cons dest!: map_of_is_SomeI)
  moreover have "trace w' = trace w @ item_events m w_min w_max ((c, x) # asg)"
    using tr randint_Inr(3) [OF d1] randint_Inr(3) [OF d2] by (simp add: item_events_def)
  moreover have "files w' = files w"
    using fl randint_Inr(4) [OF d1] randint_Inr(4) [OF d2] by simp
  moreover have "\<forall>p \<in> set ((c, x) # asg).
      0 \<le> fst p \<and> fst p \<le> m - 1 \<and> w_min \<le> snd p \<and> snd p \<le> w_max"
    using rng randint_Inr(1,2) [OF d1] randint_Inr(1,2) [OF d2] by simp
  moreover have "length ((c, x) # asg) = Suc j" using len by simp
  ultimately show ?case by blast
qed

lemma draw_dict_char:
  assumes "draw_dict R a b ks w = Inr (dct, w')"
  shows "\<exists>vals. length vals = length ks \<and> dct = zip ks vals
      \<and> (\<forall>v \<in> set vals. a \<le> v \<and> v \<le> b)
      \<and> trace w' = trace w @ map (Randint a b) vals
      \<and> files w' = files w"
  using assms
proof (induction ks arbitrary: w dct)
  case Nil
  then show ?case by simp
next
  case (Cons k ks)
  from Cons.prems obtain v w1 where d1: "random_randint R a b w = Inr (v, w1)"
    by (auto split: sum.splits)
  from Cons.prems d1 obtain dct1 where rest: "draw_dict R a b ks w1 = Inr (dct1, w')"
    and dct: "dct = (k, v) # dct1"
    by (auto split: sum.splits)
  from Cons.IH [OF rest] obtain vals where
    "length vals = length ks" "dct1 = zip ks vals" "\<forall>v \<in> set vals. a \<le> v \<and> v \<le> b"
    "trace w' = trace w1 @ map (Randint a b) vals" "files w' = files w1"
    by blast
  with dct randint_Inr [OF d1] show ?case
    by (intro exI [of _ "v # vals"]) simp
qed

lemma draw_setups_char:
  assumes "draw_setups R a b ks su w = Inr (su', w')"
    and "distinct ks"
  shows "\<exists>vals. length vals = length ks
      \<and> (\<forall>v \<in> set vals. a \<le> v \<and> v \<le> b)
      \<and> trace w' = trace w @ map (Randint a b) vals
      \<and> files w' = files w
      \<and> map_of su' = map_of su ++ map_of (zip ks vals)"
  using assms
proof (induction ks arbitrary: w su)
  case Nil
  then show ?case by simp
next
  case (Cons k ks)
  from Cons.prems(1) obtain v w1 where d1: "random_randint R a b w = Inr (v, w1)"
    by (auto split: sum.splits)
  from Cons.prems(1) d1 have rest: "draw_setups R a b ks (AList.update k v su) w1 = Inr (su', w')"
    by simp
  from Cons.prems(2) have dk: "distinct ks" and nk: "k \<notin> set ks" by simp_all
  from Cons.IH [OF rest dk] obtain vals where
    len: "length vals = length ks" and rng: "\<forall>v \<in> set vals. a \<le> v \<and> v \<le> b"
    and tr: "trace w' = trace w1 @ map (Randint a b) vals" and fl: "files w' = files w1"
    and mp: "map_of su' = map_of (AList.update k v su) ++ map_of (zip ks vals)"
    by blast
  have "k \<notin> dom (map_of (zip ks vals))"
    using nk len by (auto dest: map_of_SomeD set_zip_leftD)
  then have mp2: "map_of su' = map_of su ++ map_of (zip (k # ks) (v # vals))"
    unfolding mp by (auto simp: update_conv' map_add_def fun_eq_iff split: option.splits)
  have "length (v # vals) = length (k # ks)"
    using len by simp
  moreover have "\<forall>x \<in> set (v # vals). a \<le> x \<and> x \<le> b"
    using rng randint_Inr(1,2) [OF d1] by simp
  moreover have "trace w' = trace w @ map (Randint a b) (v # vals)"
    using tr randint_Inr(3) [OF d1] by simp
  moreover have "files w' = files w"
    using fl randint_Inr(4) [OF d1] by simp
  ultimately show ?case
    using mp2 by blast
qed

lemma seeds_of_append [simp]: "seeds_of (xs @ ys) = seeds_of xs @ seeds_of ys"
  by (induction xs rule: seeds_of.induct) simp_all

lemma seeds_of_Randint [simp]: "seeds_of (map (Randint a b) vs) = []"
  by (induction vs) simp_all

lemma seeds_of_item_events [simp]: "seeds_of (item_events m a b asg) = []"
  by (induction asg) (simp_all add: item_events_def)

lemma seeds_of_draw_events [simp]:
  "seeds_of (draw_events m w_min w_max s_min s_max f sd costs asg sws) = [sd]"
  by (simp add: draw_events_def)

lemma map_of_zip_same_dom:
  "length vals = length ks \<Longrightarrow>
     map_of (map (\<lambda>k. (k, z)) ks) ++ map_of (zip ks vals) = map_of (zip ks vals)"
proof (rule ext)
  fix k
  assume len: "length vals = length ks"
  show "(map_of (map (\<lambda>k. (k, z)) ks) ++ map_of (zip ks vals)) k = map_of (zip ks vals) k"
  proof (cases "k \<in> set ks")
    case True
    with len have "k \<in> dom (map_of (zip ks vals))" by simp
    then show ?thesis by (auto simp: map_add_def)
  next
    case False
    then have "map_of (map (\<lambda>k. (k, z)) ks) k = None"
      by (simp add: map_of_eq_None_iff image_image)
    moreover from False len have "map_of (zip ks vals) k = None"
      by (auto simp: map_of_eq_None_iff dest: set_zip_leftD)
    ultimately show ?thesis by (simp add: map_add_def)
  qed
qed

lemma draw_instance_char:
  assumes "draw_instance R n m w_min w_max s_min s_max f sd w = Inr (inst, w')"
  shows "\<exists>costs asg sws.
      length costs = nat m \<and> length asg = nat n \<and> length sws = nat m
      \<and> (if f = 0 then costs = replicate (nat m) 0 else \<forall>c \<in> set costs. 1 \<le> c \<and> c \<le> 5)
      \<and> (\<forall>p \<in> set asg. 0 \<le> fst p \<and> fst p \<le> m - 1 \<and> w_min \<le> snd p \<and> snd p \<le> w_max)
      \<and> (\<forall>s \<in> set sws. s_min \<le> s \<and> s \<le> s_max)
      \<and> trace w' = trace w @ draw_events m w_min w_max s_min s_max f sd costs asg sws
      \<and> files w' = files w
      \<and> bin_cost inst = (if f = 0 then 1 else 10)
      \<and> classes inst = map (\<lambda>cl. (cl, picks cl asg)) (py_range m)
      \<and> setup_costs inst = zip (py_range m) costs
      \<and> map_of (setups inst) = map_of (zip (py_range m) sws)
      \<and> items inst = concat (map (\<lambda>cl. picks cl asg) (py_range m))"
proof -
  let ?w0 = "random_seed R sd w"
  let ?cs0 = "map (\<lambda>cl. (cl, [])) (py_range m)"
  let ?su0 = "map (\<lambda>cl. (cl, 0)) (py_range m)"
  have w0: "trace ?w0 = trace w @ [Seed sd]" "files ?w0 = files w"
    by (simp_all add: random_seed_def)
  obtain costs w1 sc bc where
    sc: "sc = zip (py_range m) costs" and bc: "bc = (if f = 0 then 1 else (10::int))"
    and c_len: "length costs = nat m"
    and c_rng: "if f = 0 then costs = replicate (nat m) 0 else \<forall>c \<in> set costs. 1 \<le> c \<and> c \<le> 5"
    and c_tr: "trace w1 = trace ?w0 @ (if f = 0 then [] else map (Randint 1 5) costs)"
    and c_fl: "files w1 = files ?w0"
    and rest: "(case assign_items R m w_min w_max (nat n) ?cs0 w1 of
             Inl e \<Rightarrow> Inl e
           | Inr (cs, w2) \<Rightarrow>
               (case draw_setups R s_min s_max (map fst cs) ?su0 w2 of
                  Inl e \<Rightarrow> Inl e
                | Inr (su, w3) \<Rightarrow>
                    Inr (\<lparr>bin_cost = bc, classes = cs, setup_costs = sc, setups = su,
                          items = concat (map snd cs)\<rparr>, w3))) = Inr (inst, w')"
  proof (cases "f = 0")
    case True
    have zeq: "map (\<lambda>cl. (cl, 0::int)) (py_range m) = zip (py_range m) (replicate (nat m) 0)"
      by (simp add: zip_replicate2 flip: py_range_length)
    show ?thesis
      apply (rule that [of "map (\<lambda>cl. (cl, 0)) (py_range m)" "replicate (nat m) 0" 1 ?w0])
      subgoal by (rule zeq)
      using True assms by (simp_all add: draw_instance_def Let_def)
  next
    case False
    with assms obtain sc w1 where dd: "draw_dict R 1 5 (py_range m) ?w0 = Inr (sc, w1)"
      by (auto simp: draw_instance_def Let_def split: sum.splits)
    from draw_dict_char [OF dd] obtain costs where
      sc: "sc = zip (py_range m) costs"
      and cs: "length costs = length (py_range m)"
        "\<forall>v \<in> set costs. 1 \<le> v \<and> v \<le> 5"
        "trace w1 = trace ?w0 @ map (Randint 1 5) costs" "files w1 = files ?w0"
      by blast
    from dd sc have "draw_dict R 1 5 (py_range m) ?w0 = Inr (zip (py_range m) costs, w1)"
      by simp
    with False assms cs show ?thesis
      by (intro that [of "zip (py_range m) costs" costs 10 w1])
        (simp_all add: draw_instance_def Let_def)
  qed
  from rest obtain cs w2 where ai: "assign_items R m w_min w_max (nat n) ?cs0 w1 = Inr (cs, w2)"
    by (auto split: sum.splits)
  have "distinct (map fst ?cs0)" by (simp add: comp_def)
  from assign_items_char [OF ai this] obtain asg where
    a_len: "length asg = nat n"
    and a_rng: "\<forall>p \<in> set asg. 0 \<le> fst p \<and> fst p \<le> m - 1 \<and> w_min \<le> snd p \<and> snd p \<le> w_max"
    and a_tr: "trace w2 = trace w1 @ item_events m w_min w_max asg"
    and a_fl: "files w2 = files w1"
    and cs: "cs = map (\<lambda>cl. (cl, picks cl asg)) (py_range m)"
    by (auto simp: comp_def)
  have keys: "map fst cs = py_range m"
    by (simp add: cs comp_def)
  from rest ai keys obtain su where ds: "draw_setups R s_min s_max (py_range m) ?su0 w2 = Inr (su, w')"
    and inst: "inst = \<lparr>bin_cost = bc, classes = cs, setup_costs = sc, setups = su,
         items = concat (map snd cs)\<rparr>"
    by (auto split: sum.splits)
  from draw_setups_char [OF ds] obtain sws where
    s_len: "length sws = length (py_range m)"
    and s_rng: "\<forall>s \<in> set sws. s_min \<le> s \<and> s \<le> s_max"
    and s_tr: "trace w' = trace w2 @ map (Randint s_min s_max) sws"
    and s_fl: "files w' = files w2"
    and su: "map_of su = map_of ?su0 ++ map_of (zip (py_range m) sws)"
    by auto
  have su': "map_of su = map_of (zip (py_range m) sws)"
    unfolding su using s_len by (rule map_of_zip_same_dom)
  have tr: "trace w' = trace w @ draw_events m w_min w_max s_min s_max f sd costs asg sws"
    by (simp add: s_tr a_tr c_tr w0 draw_events_def)
  have fl: "files w' = files w"
    by (simp add: s_fl a_fl c_fl w0)
  have it: "items inst = concat (map (\<lambda>cl. picks cl asg) (py_range m))"
    by (simp add: inst cs comp_def)
  from c_len a_len s_len c_rng a_rng s_rng tr fl it su' show ?thesis
    by (intro exI [of _ costs] exI [of _ asg] exI [of _ sws]) (simp add: inst cs sc bc)
qed

lemma map_of_keys: "k \<in> set ks \<Longrightarrow> map_of (map (\<lambda>k. (k, F k)) ks) k = Some (F k)"
  by (induction ks) auto

lemma class_sizes_char:
  "\<forall>i \<in> set ks. map_of cs i = Some (W i) \<Longrightarrow>
     class_sizes cs ks = Inr (map (\<lambda>i. int (length (W i))) ks)"
  by (induction ks) (simp_all add: getitem_def)

lemma min_list_ge_iff: "ls \<noteq> [] \<Longrightarrow> (mi::int) \<le> min_list ls \<longleftrightarrow> (\<forall>l \<in> set ls. mi \<le> l)"
  by (simp add: min_list_Min)

lemma accepted_char:
  "accepted m mi (map (\<lambda>cl. (cl, picks cl asg)) (py_range m)) =
     (if m \<le> 0 then Inl ValueError
      else Inr (\<forall>cl \<in> {0..m - 1}. mi \<le> int (length (picks cl asg))))"
proof -
  have "class_sizes (map (\<lambda>cl. (cl, picks cl asg)) (py_range m)) (py_range m) =
      Inr (map (\<lambda>i. int (length (picks i asg))) (py_range m))"
    by (rule class_sizes_char) (simp add: map_of_keys)
  then show ?thesis
    by (simp add: accepted_def min_list_ge_iff)
qed

lemma picks_total:
  assumes "\<forall>p \<in> set asg. 0 \<le> fst p \<and> fst p \<le> m - 1"
  shows "(\<Sum>cl\<leftarrow>py_range m. length (picks cl asg)) = length asg"
  using assms
proof (induction asg)
  case Nil
  then show ?case by simp
next
  case (Cons p asg)
  obtain c x where p: "p = (c, x)" by (cases p)
  from Cons.prems p have c: "c \<in> set (py_range m)" by simp
  have "(\<Sum>cl\<leftarrow>ks. length (picks cl ((c, x) # asg))) =
      (\<Sum>cl\<leftarrow>ks. length (picks cl asg)) + (if c \<in> set ks then 1 else 0)"
    if "distinct ks" for ks
    using that by (induction ks) (auto simp: picks_Cons)
  from this [of "py_range m"] c Cons p show ?case by simp
qed

lemma never_accepted:
  assumes "1 \<le> m" and "0 \<le> n" and "n < m * mi" and "length asg = nat n"
    and "\<forall>p \<in> set asg. 0 \<le> fst p \<and> fst p \<le> m - 1"
  shows "\<not> (\<forall>cl \<in> {0..m - 1}. mi \<le> int (length (picks cl asg)))"
proof
  assume all: "\<forall>cl \<in> {0..m - 1}. mi \<le> int (length (picks cl asg))"
  have "(\<Sum>cl\<leftarrow>ks. mi) \<le> (\<Sum>cl\<leftarrow>ks. int (length (picks cl asg)))"
    if "set ks \<subseteq> {0..m - 1}" for ks
    using that all by (induction ks) (auto intro: add_mono)
  from this [of "py_range m"] have "(\<Sum>cl\<leftarrow>py_range m. mi) \<le> int (\<Sum>cl\<leftarrow>py_range m. length (picks cl asg))"
    by (simp add: comp_def flip: sum_list_of_nat) 
  also have "\<dots> = n"
    using picks_total [OF assms(5)] assms(2,4) by simp
  finally have "int (nat m) * mi \<le> n"
    by (simp add: sum_list_triv)
  with assms(1,3) show False by simp
qed

lemma draw_dict_ok: "a \<le> b \<Longrightarrow> \<exists>r. draw_dict R a b ks w = Inr r"
proof (induction ks arbitrary: w)
  case Nil
  then show ?case by simp
next
  case (Cons k ks)
  from randint_ok [OF Cons.prems] obtain v u where "random_randint R a b w = Inr (v, u)"
    by blast
  moreover from Cons.IH [OF Cons.prems] obtain r where "draw_dict R a b ks u = Inr r"
    by blast
  ultimately show ?case by (cases r) simp
qed

lemma draw_setups_ok: "a \<le> b \<Longrightarrow> \<exists>r. draw_setups R a b ks su w = Inr r"
proof (induction ks arbitrary: w su)
  case Nil
  then show ?case by simp
next
  case (Cons k ks)
  from randint_ok [OF Cons.prems] obtain v u where "random_randint R a b w = Inr (v, u)"
    by blast
  moreover from Cons.IH [OF Cons.prems] obtain r where
    "draw_setups R a b ks (AList.update k v su) u = Inr r"
    by blast
  ultimately show ?case by simp
qed

lemma assign_items_ok:
  assumes "1 \<le> m" and "j = 0 \<or> w_min \<le> w_max" and "{0..m - 1} \<subseteq> fst ` set cs"
  shows "\<exists>r. assign_items R m w_min w_max j cs w = Inr r"
  using assms(2,3)
proof (induction j arbitrary: cs w)
  case 0
  then show ?case by simp
next
  case (Suc j)
  from assms(1) have "(0::int) \<le> m - 1" by simp
  from randint_ok [OF this] obtain c w1 where d1: "random_randint R 0 (m - 1) w = Inr (c, w1)"
    by blast
  from Suc.prems(1) have "w_min \<le> w_max" by simp
  from randint_ok [OF this] obtain x w2 where d2: "random_randint R w_min w_max w1 = Inr (x, w2)"
    by blast
  from randint_Inr(1,2) [OF d1] Suc.prems(2) have "c \<in> fst ` set cs" by auto
  then obtain ws where g: "map_of cs c = Some ws"
    by (cases "map_of cs c") (auto simp: map_of_eq_None_iff)
  have "{0..m - 1} \<subseteq> fst ` set (AList.update c (ws @ [x]) cs)"
    using Suc.prems(2) by (auto simp: dom_update)
  with Suc.IH [of "AList.update c (ws @ [x]) cs" w2] \<open>w_min \<le> w_max\<close>
  obtain r where "assign_items R m w_min w_max j (AList.update c (ws @ [x]) cs) w2 = Inr r"
    by blast
  with d1 d2 g show ?case by (simp add: getitem_def)
qed

lemma draw_instance_ok:
  assumes "1 \<le> m" and "n \<le> 0 \<or> w_min \<le> w_max" and "s_min \<le> s_max"
  shows "\<exists>r. draw_instance R n m w_min w_max s_min s_max f sd w = Inr r"
proof -
  let ?w0 = "random_seed R sd w"
  let ?cs0 = "map (\<lambda>cl. (cl, [])) (py_range m)"
  obtain scbc w1 where
    c: "(if f = 0 then Inr ((map (\<lambda>cl. (cl, 0::int)) (py_range m), 1::int), ?w0)
            else (case draw_dict R 1 5 (py_range m) ?w0 of
                    Inl e \<Rightarrow> Inl e
                  | Inr (sc, w1) \<Rightarrow> Inr ((sc, 10), w1))) = Inr (scbc, w1)"
  proof (cases "f = 0")
    case True
    then show ?thesis by (intro that) simp
  next
    case False
    from draw_dict_ok [of 1 5 R "py_range m" ?w0] obtain r where
      "draw_dict R 1 5 (py_range m) ?w0 = Inr r" by auto
    with False show ?thesis by (cases r) (auto intro: that)
  qed
  have "{0..m - 1} \<subseteq> fst ` set ?cs0" by (simp add: image_image)
  moreover from assms(2) have "nat n = 0 \<or> w_min \<le> w_max" by auto
  ultimately obtain cs w2 where a: "assign_items R m w_min w_max (nat n) ?cs0 w1 = Inr (cs, w2)"
    using assign_items_ok [OF assms(1), of "nat n" w_min w_max ?cs0 R w1] by fastforce
  from draw_setups_ok [OF assms(3)] obtain su w3 where
    s: "draw_setups R s_min s_max (map fst cs) (map (\<lambda>cl. (cl, 0)) (py_range m)) w2 = Inr (su, w3)"
    by fastforce
  obtain sc bc where scbc: "scbc = (sc, bc)" by (cases scbc)
  show ?thesis
    apply (simp only: draw_instance_def Let_def c scbc sum.case prod.case)
    using a s by simp
qed

lemma py_range_nth: "i < nat m \<Longrightarrow> py_range m ! i = int i"
  by (simp add: py_range_def)

lemma map_of_zip_range:
  assumes "length vs = nat m" and "0 \<le> cl" and "cl \<le> m - 1"
  shows "map_of (zip (py_range m) vs) cl = Some (vs ! nat cl)"
proof -
  from assms have i: "nat cl < nat m" by simp
  have "map_of (zip (py_range m) vs) (py_range m ! nat cl) = Some (vs ! nat cl)"
    by (rule map_of_zip_nth) (use assms i in simp_all)
  with i assms(2) show ?thesis by (simp add: py_range_nth)
qed

lemma write_classes_char:
  "\<forall>cl \<in> set ks. map_of cs cl = Some (W cl) \<and> map_of sc cl = Some (C cl) \<and> map_of su cl = Some (S cl) \<Longrightarrow>
     write_classes ks cs sc su out =
       Inr (out @ render (map (\<lambda>cl. [- C cl, S cl, int (length (W cl))]) (filter (\<lambda>cl. W cl \<noteq> []) ks)))"
  by (induction ks arbitrary: out) (simp_all add: getitem_def render_def)

lemma write_items_render: "write_items ws = render (map (\<lambda>x. [x]) ws)"
  by (simp add: write_items_def render_def comp_def)

lemma render_append: "render (xs @ ys) = render xs @ render ys"
  by (simp add: render_def)

lemma write_instance_file_char:
  assumes "length costs = nat m" and "length sws = nat m"
    and "classes inst = map (\<lambda>cl. (cl, picks cl asg)) (py_range m)"
    and "setup_costs inst = zip (py_range m) costs"
    and "map_of (setups inst) = map_of (zip (py_range m) sws)"
    and "items inst = concat (map (\<lambda>cl. picks cl asg) (py_range m))"
    and "bin_cost inst = (if f = 0 then 1 else 10)"
  shows "write_instance_file cfg d n m w_min w_max s_min s_max f seed inst w =
     Inr (w\<lparr>files := (files w)
       ((output_directory cfg, generate_filename d n m w_min w_max s_min s_max f seed)
          \<mapsto> render (instance_table n m d f costs asg sws))\<rparr>)"
proof -
  have hd: "str_int n @ [TAB] @ str_int m @ [TAB] @ str_int d @ [TAB]
      @ str_int (bin_cost inst) @ [NL] = render [[n, m, d, if f = 0 then 1 else 10]]"
    by (simp add: render_def assms(7))
  have "write_classes (py_range m) (classes inst) (setup_costs inst) (setups inst)
        (render [[n, m, d, if f = 0 then 1 else 10]]) =
      Inr (render [[n, m, d, if f = 0 then 1 else 10]]
        @ render (map (\<lambda>cl. [- (costs ! nat cl), sws ! nat cl, int (length (picks cl asg))])
            (filter (\<lambda>cl. picks cl asg \<noteq> []) (py_range m))))"
    by (rule write_classes_char)
      (simp add: assms(1-5) map_of_keys map_of_zip_range)
  moreover have "render (instance_table n m d f costs asg sws) =
      render [[n, m, d, if f = 0 then 1 else 10]]
      @ render (map (\<lambda>cl. [- (costs ! nat cl), sws ! nat cl, int (length (picks cl asg))])
          (filter (\<lambda>cl. picks cl asg \<noteq> []) (py_range m)))
      @ render (map (\<lambda>x. [x]) (concat (map (\<lambda>cl. picks cl asg) (py_range m))))"
    by (simp add: instance_table_def class_rows_def weight_rows_def render_def)
  ultimately show ?thesis
    unfolding write_instance_file_def Let_def hd
    by (simp only: write_items_render assms(6) sum.case append_assoc)
qed

lemma attempt_char:
  assumes "attempt R cfg d n m w_min w_max s_min s_max f seed found k w = Inr (b, w')"
  shows "\<exists>costs asg sws.
      valid_draw n m w_min w_max s_min s_max f costs asg sws
      \<and> 1 \<le> m
      \<and> trace w' = trace w @ draw_events m w_min w_max s_min s_max f (seed + k) costs asg sws
      \<and> (if enough_items m (min_items_per_class cfg) asg
          then b \<and> files w' = (files w)
            ((output_directory cfg, generate_filename d n m w_min w_max s_min s_max f seed)
               \<mapsto> render (instance_table n m d f costs asg sws))
          else b = found \<and> files w' = files w)"
proof -
  from assms obtain inst w1 where
    di: "draw_instance R n m w_min w_max s_min s_max f (seed + k) w = Inr (inst, w1)"
    by (auto simp: attempt_def split: sum.splits)
  from draw_instance_char [OF di] obtain costs asg sws where
    len: "length costs = nat m" "length asg = nat n" "length sws = nat m"
    and rng: "if f = 0 then costs = replicate (nat m) 0 else \<forall>c \<in> set costs. 1 \<le> c \<and> c \<le> 5"
      "\<forall>p \<in> set asg. 0 \<le> fst p \<and> fst p \<le> m - 1 \<and> w_min \<le> snd p \<and> snd p \<le> w_max"
      "\<forall>s \<in> set sws. s_min \<le> s \<and> s \<le> s_max"
    and tr: "trace w1 = trace w @ draw_events m w_min w_max s_min s_max f (seed + k) costs asg sws"
    and fl: "files w1 = files w"
    and inst: "bin_cost inst = (if f = 0 then 1 else 10)"
      "classes inst = map (\<lambda>cl. (cl, picks cl asg)) (py_range m)"
      "setup_costs inst = zip (py_range m) costs"
      "map_of (setups inst) = map_of (zip (py_range m) sws)"
      "items inst = concat (map (\<lambda>cl. picks cl asg) (py_range m))"
    by blast
  have vd: "valid_draw n m w_min w_max s_min s_max f costs asg sws"
    unfolding valid_draw_def using len rng by simp
  have acc: "accepted m (min_items_per_class cfg) (classes inst) =
      (if m \<le> 0 then Inl ValueError else Inr (enough_items m (min_items_per_class cfg) asg))"
    by (simp add: inst(2) accepted_char enough_items_def)
  from assms di acc have m: "1 \<le> m"
    by (auto simp: attempt_def split: if_splits)
  have wr: "write_instance_file cfg d n m w_min w_max s_min s_max f seed inst w1 =
     Inr (w1\<lparr>files := (files w1)
       ((output_directory cfg, generate_filename d n m w_min w_max s_min s_max f seed)
          \<mapsto> render (instance_table n m d f costs asg sws))\<rparr>)"
    using len(1,3) inst(2,3,4,5,1) by (rule write_instance_file_char)
  show ?thesis
  proof (cases "enough_items m (min_items_per_class cfg) asg")
    case True
    with assms di acc m wr have "b" and "w' = w1\<lparr>files := (files w1)
       ((output_directory cfg, generate_filename d n m w_min w_max s_min s_max f seed)
          \<mapsto> render (instance_table n m d f costs asg sws))\<rparr>"
      by (auto simp: attempt_def)
    with True vd m tr fl show ?thesis by auto
  next
    case False
    with assms di acc m have "b = found" and "w' = w1"
      by (auto simp: attempt_def)
    with False vd m tr fl show ?thesis by auto
  qed
qed

lemma attempt_infeasible:
  assumes "1 \<le> m" and "0 \<le> n" and "n < m * min_items_per_class cfg"
    and "w_min \<le> w_max" and "s_min \<le> s_max"
  shows "\<exists>w'. attempt R cfg d n m w_min w_max s_min s_max f seed False k w = Inr (False, w')
      \<and> files w' = files w \<and> seeds_of (trace w') = seeds_of (trace w) @ [seed + k]"
proof -
  from draw_instance_ok [OF assms(1) _ assms(5), of n w_min w_max R f "seed + k" w] assms(4)
  obtain inst w1 where
    di: "draw_instance R n m w_min w_max s_min s_max f (seed + k) w = Inr (inst, w1)"
    by fastforce
  from draw_instance_char [OF di] obtain costs asg sws where
    len: "length asg = nat n"
    and rng: "\<forall>p \<in> set asg. 0 \<le> fst p \<and> fst p \<le> m - 1 \<and> w_min \<le> snd p \<and> snd p \<le> w_max"
    and tr: "trace w1 = trace w @ draw_events m w_min w_max s_min s_max f (seed + k) costs asg sws"
    and fl: "files w1 = files w"
    and cl: "classes inst = map (\<lambda>cl. (cl, picks cl asg)) (py_range m)"
    by blast
  from rng have "\<forall>p \<in> set asg. 0 \<le> fst p \<and> fst p \<le> m - 1" by simp
  from never_accepted [OF assms(1,2,3) len this]
  have "accepted m (min_items_per_class cfg) (classes inst) = Inr False"
    using assms(1) by (simp add: cl accepted_char)
  with di have "attempt R cfg d n m w_min w_max s_min s_max f seed False k w = Inr (False, w1)"
    by (simp add: attempt_def)
  with tr fl show ?thesis by simp
qed

lemma while_loop_exit:
  "found \<or> max_attempts \<le> k \<Longrightarrow>
     while_loop R cfg d n m w_min w_max s_min s_max f seed found k w = Inr (found, w)"
  by (subst while_loop.simps) auto

lemma while_loop_step:
  "\<not> found \<Longrightarrow> k < max_attempts \<Longrightarrow>
     while_loop R cfg d n m w_min w_max s_min s_max f seed found k w =
       (case attempt R cfg d n m w_min w_max s_min s_max f seed found k w of
          Inl e \<Rightarrow> Inl e
        | Inr (found', w') \<Rightarrow>
            while_loop R cfg d n m w_min w_max s_min s_max f seed found' (k + 1) w')"
  by (subst while_loop.simps) simp

lemma while_loop_success:
  assumes "while_loop R cfg d n m w_min w_max s_min s_max f seed found k w = Inr (True, w')"
  shows "(found \<and> w' = w) \<or>
     (\<exists>k' u. k \<le> k' \<and> k' < max_attempts
        \<and> attempt R cfg d n m w_min w_max s_min s_max f seed False k' u = Inr (True, w'))"
  using assms
proof (induction "nat (max_attempts - k)" arbitrary: found k w)
  case 0
  then have "max_attempts \<le> k" by simp
  with "0.prems" show ?case by (simp add: while_loop_exit)
next
  case (Suc j)
  show ?case
  proof (cases found)
    case True
    with Suc.prems show ?thesis by (simp add: while_loop_exit)
  next
    case False
    from Suc.hyps(2) have k: "k < max_attempts" by simp
    from Suc.prems False k obtain found' w1 where
      at: "attempt R cfg d n m w_min w_max s_min s_max f seed False k w = Inr (found', w1)"
      and rest: "while_loop R cfg d n m w_min w_max s_min s_max f seed found' (k + 1) w1
        = Inr (True, w')"
      by (auto simp: while_loop_step split: sum.splits)
    from Suc.hyps(2) have "j = nat (max_attempts - (k + 1))" by simp
    from Suc.hyps(1) [OF this rest] show ?thesis
    proof
      assume "found' \<and> w' = w1"
      with at k show ?thesis by auto
    next
      assume "\<exists>k' u. k + 1 \<le> k' \<and> k' < max_attempts
        \<and> attempt R cfg d n m w_min w_max s_min s_max f seed False k' u = Inr (True, w')"
      then obtain k' u where "k + 1 \<le> k'" "k' < max_attempts"
        "attempt R cfg d n m w_min w_max s_min s_max f seed False k' u = Inr (True, w')"
        by blast
      then show ?thesis by (intro disjI2 exI [of _ k'] exI [of _ u]) simp
    qed
  qed
qed

lemma while_loop_all_fail:
  assumes step: "\<And>k w. \<exists>w'.
      attempt R cfg d n m w_min w_max s_min s_max f seed False k w = Inr (False, w')
      \<and> files w' = files w \<and> seeds_of (trace w') = seeds_of (trace w) @ [seed + k]"
  shows "\<exists>w'. while_loop R cfg d n m w_min w_max s_min s_max f seed False k w = Inr (False, w')
      \<and> files w' = files w
      \<and> seeds_of (trace w') = seeds_of (trace w) @ map (\<lambda>i. seed + i) [k..max_attempts - 1]"
proof (induction "nat (max_attempts - k)" arbitrary: k w)
  case 0
  then have "max_attempts \<le> k" by simp
  then show ?case by (simp add: while_loop_exit)
next
  case (Suc j)
  from Suc.hyps(2) have k: "k < max_attempts" by simp
  from step [of k w] obtain w1 where
    at: "attempt R cfg d n m w_min w_max s_min s_max f seed False k w = Inr (False, w1)"
    and fl: "files w1 = files w"
    and tr: "seeds_of (trace w1) = seeds_of (trace w) @ [seed + k]"
    by blast
  from Suc.hyps(2) have "j = nat (max_attempts - (k + 1))" by simp
  from Suc.hyps(1) [OF this, of w1] obtain w' where
    "while_loop R cfg d n m w_min w_max s_min s_max f seed False (k + 1) w1 = Inr (False, w')"
    "files w' = files w1"
    "seeds_of (trace w') = seeds_of (trace w1) @ map (\<lambda>i. seed + i) [k + 1..max_attempts - 1]"
    by blast
  moreover from k have "[k..max_attempts - 1] = k # [k + 1..max_attempts - 1]"
    by (simp add: upto_rec1)
  ultimately show ?case
    using at fl tr k by (simp add: while_loop_step)
qed

lemma generate_single_instance_bounds:
  assumes "floor_mul R d v1 = Inr w_min" and "ceil_mul R d v2 = Inr w_max"
    and "floor_mul R d s1 = Inr s_min" and "ceil_mul R d s2 = Inr s_max"
  shows "generate_single_instance R cfg d n m v1 v2 s1 s2 f seed w =
     while_loop R cfg d n m w_min w_max s_min s_max f seed False 0 w"
  by (simp add: generate_single_instance_def assms)

lemma generate_single_instance_infeasible:
  assumes "floor_mul R d v1 = Inr w_min" and "ceil_mul R d v2 = Inr w_max"
    and "floor_mul R d s1 = Inr s_min" and "ceil_mul R d s2 = Inr s_max"
    and "1 \<le> m" and "0 \<le> n" and "n < m * min_items_per_class cfg"
    and "w_min \<le> w_max" and "s_min \<le> s_max"
  shows "\<exists>w'. generate_single_instance R cfg d n m v1 v2 s1 s2 f seed w = Inr (False, w')
      \<and> files w' = files w
      \<and> seeds_of (trace w') = seeds_of (trace w) @ map (\<lambda>k. seed + k) [0..999]"
proof -
  have "\<exists>w'. while_loop R cfg d n m w_min w_max s_min s_max f seed False 0 w = Inr (False, w')
      \<and> files w' = files w
      \<and> seeds_of (trace w') = seeds_of (trace w) @ map (\<lambda>i. seed + i) [0..max_attempts - 1]"
    by (rule while_loop_all_fail) (rule attempt_infeasible [OF assms(5-9)])
  then show ?thesis
    by (simp add: generate_single_instance_bounds [OF assms(1-4)] max_attempts_def)
qed

lemma sweep_loop_append:
  "sweep_loop R cfg (xs @ ys) t s fl w =
     (case sweep_loop R cfg xs t s fl w of
        Inl e \<Rightarrow> Inl e
      | Inr ((t1, s1, fl1), w1) \<Rightarrow> sweep_loop R cfg ys t1 s1 fl1 w1)"
proof (induction xs arbitrary: t s fl w)
  case Nil
  then show ?case by simp
next
  case (Cons p xs)
  obtain d n m v1 v2 s1 s2 f sd where p: "p = (d, n, m, v1, v2, s1, s2, f, sd)"
    by (cases p) auto
  show ?case
    by (cases "generate_single_instance R cfg d n m v1 v2 s1 s2 f sd w")
      (auto simp: p Cons.IH)
qed

lemma sweep_loop_failed_grows:
  "sweep_loop R cfg ts t s fl w = Inr ((t', s', fl'), w') \<Longrightarrow> set fl \<subseteq> set fl'"
proof (induction ts arbitrary: t s fl w)
  case Nil
  then show ?case by simp
next
  case (Cons p ts)
  obtain d n m v1 v2 s1 s2 f sd where p: "p = (d, n, m, v1, v2, s1, s2, f, sd)"
    by (cases p) auto
  from Cons.prems p obtain ok u where
    g: "generate_single_instance R cfg d n m v1 v2 s1 s2 f sd w = Inr (ok, u)"
    by (auto split: sum.splits)
  show ?case
  proof (cases ok)
    case True
    with Cons.prems p g have "sweep_loop R cfg ts (t + 1) (s + 1) fl u = Inr ((t', s', fl'), w')"
      by simp
    from Cons.IH [OF this] show ?thesis .
  next
    case False
    with Cons.prems p g have
      "sweep_loop R cfg ts (t + 1) s (fl @ [(d, n, m, v1, v2, s1, s2, f, sd)]) u = Inr ((t', s', fl'), w')"
      by simp
    from Cons.IH [OF this] show ?thesis by simp
  qed
qed

text \<open>
  Claim C2. A parameter tuple with \<open>n < m * min_items_per_class\<close> (and the data
  model's \<open>m \<ge> 1\<close>, \<open>n \<ge> 0\<close> and ordered bounds) is never accepted: the builder
  reseeds with \<open>seed + 0, \<dots>, seed + 999\<close>, writes no file and returns False. The
  sweep then counts the tuple, appends it to the failed list and goes on with
  the tuples that follow; whenever the sweep returns, the tuple is in
  \<open>failed_instances\<close>.
\<close>

theorem infeasible_tuple_exhausts_attempts:
  assumes "floor_mul R d v1 = Inr w_min" and "ceil_mul R d v2 = Inr w_max"
    and "floor_mul R d s1 = Inr s_min" and "ceil_mul R d s2 = Inr s_max"
    and "1 \<le> m" and "0 \<le> n" and "n < m * min_items_per_class cfg"
    and "w_min \<le> w_max" and "s_min \<le> s_max"
  shows "(\<exists>w'. generate_single_instance R cfg d n m v1 v2 s1 s2 f seed w = Inr (False, w')
        \<and> files w' = files w
        \<and> seeds_of (trace w') = seeds_of (trace w) @ map (\<lambda>k. seed + k) [0..999]
        \<and> sweep_loop R cfg ((d, n, m, v1, v2, s1, s2, f, seed) # rest) t s fl w =
            sweep_loop R cfg rest (t + 1) s (fl @ [(d, n, m, v1, v2, s1, s2, f, seed)]) w')
    \<and> (\<forall>w0 st u. (d, n, m, v1, v2, s1, s2, f, seed) \<in> set (combinations cfg)
          \<and> generate_instances R cfg w0 = Inr (st, u)
          \<longrightarrow> (d, n, m, v1, v2, s1, s2, f, seed) \<in> set (failed_instances st))"
proof (intro conjI allI impI)
  from generate_single_instance_infeasible [OF assms] obtain w' where
    "generate_single_instance R cfg d n m v1 v2 s1 s2 f seed w = Inr (False, w')"
    "files w' = files w"
    "seeds_of (trace w') = seeds_of (trace w) @ map (\<lambda>k. seed + k) [0..999]"
    by blast
  then show "\<exists>w'. generate_single_instance R cfg d n m v1 v2 s1 s2 f seed w = Inr (False, w')
        \<and> files w' = files w
        \<and> seeds_of (trace w') = seeds_of (trace w) @ map (\<lambda>k. seed + k) [0..999]
        \<and> sweep_loop R cfg ((d, n, m, v1, v2, s1, s2, f, seed) # rest) t s fl w =
            sweep_loop R cfg rest (t + 1) s (fl @ [(d, n, m, v1, v2, s1, s2, f, seed)]) w'"
    by (intro exI [of _ w']) simp
next
  fix w0 st u
  let ?p = "(d, n, m, v1, v2, s1, s2, f, seed)"
  assume a: "?p \<in> set (combinations cfg) \<and> generate_instances R cfg w0 = Inr (st, u)"
  then obtain xs ys where split: "combinations cfg = xs @ ?p # ys"
    by (auto simp: in_set_conv_decomp)
  from a obtain t s fl where
    sw: "sweep_loop R cfg (combinations cfg) 0 0 [] w0 = Inr ((t, s, fl), u)"
    and st: "failed_instances st = fl"
    by (auto simp: generate_instances_def split: sum.splits)
  from sw split obtain t1 s1' fl1 w1 where
    "sweep_loop R cfg xs 0 0 [] w0 = Inr ((t1, s1', fl1), w1)"
    and r: "sweep_loop R cfg (?p # ys) t1 s1' fl1 w1 = Inr ((t, s, fl), u)"
    by (auto simp: sweep_loop_append split: sum.splits)
  from generate_single_instance_infeasible [OF assms, of f seed w1] obtain w2 where
    "generate_single_instance R cfg d n m v1 v2 s1 s2 f seed w1 = Inr (False, w2)"
    by blast
  with r have "sweep_loop R cfg ys (t1 + 1) s1' (fl1 @ [?p]) w2 = Inr ((t, s, fl), u)"
    by simp
  from sweep_loop_failed_grows [OF this] st show "?p \<in> set (failed_instances st)"
    by simp
qed

theorem infeasible_tuple_exhausts_attempts_witness:
  "floor_mul lcg_runtime 200 (1 / 20) = Inr 10 \<and> ceil_mul lcg_runtime 200 (3 / 20) = Inr 30
   \<and> floor_mul lcg_runtime 200 (1 / 100) = Inr 2 \<and> ceil_mul lcg_runtime 200 (1 / 10) = Inr 20
   \<and> (1::int) \<le> 5 \<and> (0::int) \<le> 2 \<and> 2 < 5 * min_items_per_class boundary_cfg
   \<and> (10::int) \<le> 30 \<and> (2::int) \<le> 20
   \<and> (\<exists>w'. generate_single_instance lcg_runtime boundary_cfg 200 2 5
               (1 / 20) (3 / 20) (1 / 100) (1 / 10) 0 0 empty_world = Inr (False, w')
         \<and> files w' = files empty_world
         \<and> seeds_of (trace w') = seeds_of (trace empty_world) @ map (\<lambda>k. 0 + k) [0..999]
         \<and> sweep_loop lcg_runtime boundary_cfg
              [(200, 2, 5, 1 / 20, 3 / 20, 1 / 100, 1 / 10, 0, 0)] 0 0 [] empty_world =
            Inr ((1, 0, [(200, 2, 5, 1 / 20, 3 / 20, 1 / 100, 1 / 10, 0, 0)]), w'))"
proof -
  have h: "floor_mul lcg_runtime 200 (1 / 20) = Inr 10" "ceil_mul lcg_runtime 200 (3 / 20) = Inr 30"
    "floor_mul lcg_runtime 200 (1 / 100) = Inr 2" "ceil_mul lcg_runtime 200 (1 / 10) = Inr 20"
    "(1::int) \<le> 5" "(0::int) \<le> 2" "2 < 5 * min_items_per_class boundary_cfg"
    "(10::int) \<le> 30" "(2::int) \<le> 20"
    by (simp_all add: lcg_runtime_def boundary_cfg_def)
  from infeasible_tuple_exhausts_attempts [OF h, of 0 0 empty_world "[]" 0 0 "[]"]
  show ?thesis using h by simp
qed

lemma picks_single_class:
  "\<forall>p \<in> set asg. 0 \<le> fst p \<and> fst p \<le> 0 \<Longrightarrow> picks 0 asg = map snd asg"
  by (induction asg) (auto simp: picks_def)

lemma single_class_accepted:
  assumes "floor_mul R d v1 = Inr w_min" and "ceil_mul R d v2 = Inr w_max"
    and "floor_mul R d s1 = Inr s_min" and "ceil_mul R d s2 = Inr s_max"
    and "0 \<le> n" and "min_items_per_class cfg \<le> n"
    and "w_min \<le> w_max" and "s_min \<le> s_max"
  shows "\<exists>w'. generate_single_instance R cfg d n 1 v1 v2 s1 s2 f seed w = Inr (True, w')"
proof -
  from draw_instance_ok [of 1 n w_min w_max s_min s_max R f "seed + 0" w] assms(7,8)
  obtain inst w1 where
    di: "draw_instance R n 1 w_min w_max s_min s_max f (seed + 0) w = Inr (inst, w1)"
    by fastforce
  from draw_instance_char [OF di] obtain costs asg sws where
    len: "length costs = nat 1" "length asg = nat n" "length sws = nat 1"
    and rng: "\<forall>p \<in> set asg. 0 \<le> fst p \<and> fst p \<le> 1 - 1 \<and> w_min \<le> snd p \<and> snd p \<le> w_max"
    and inst: "bin_cost inst = (if f = 0 then 1 else 10)"
      "classes inst = map (\<lambda>cl. (cl, picks cl asg)) (py_range 1)"
      "setup_costs inst = zip (py_range 1) costs"
      "map_of (setups inst) = map_of (zip (py_range 1) sws)"
      "items inst = concat (map (\<lambda>cl. picks cl asg) (py_range 1))"
    by blast
  from rng have "picks 0 asg = map snd asg"
    by (intro picks_single_class) simp
  with len(2) assms(5,6) have "accepted 1 (min_items_per_class cfg) (classes inst) = Inr True"
    by (simp add: inst(2) accepted_char)
  moreover from write_instance_file_char [OF len(1,3) inst(2,3,4,5,1)]
  obtain w2 where "write_instance_file cfg d n 1 w_min w_max s_min s_max f seed inst w1 = Inr w2"
    by blast
  ultimately have
    "attempt R cfg d n 1 w_min w_max s_min s_max f seed False 0 w = Inr (True, w2)"
    using di by (simp add: attempt_def)
  then have "while_loop R cfg d n 1 w_min w_max s_min s_max f seed False 0 w = Inr (True, w2)"
    by (simp add: while_loop_step while_loop_exit max_attempts_def)
  then show ?thesis
    by (simp add: generate_single_instance_bounds [OF assms(1-4)])
qed

text \<open>
  Claim C10. When the sweep returns, \<open>total_attempted\<close> is the number of
  combinations, \<open>failed\<close> is the length of \<open>failed_instances\<close>, the successes and
  the failures add up to the total, and \<open>success_rate\<close> is the integer 0 for an
  empty sweep and the float \<^verbatim>\<open>successful / total_attempted * 100\<close> otherwise. A
  sweep of 3 combinations with 1 failure reports 2 successes and the rate
  \<^verbatim>\<open>2 / 3 * 100\<close>.
\<close>

theorem statistics_success_rate:
  assumes "generate_instances R cfg w = Inr (st, w')"
  shows "total_attempted st = int (length (combinations cfg))
    \<and> failed st = int (length (failed_instances st))
    \<and> successful st + failed st = total_attempted st
    \<and> success_rate st =
        (if total_attempted st = 0 then PyInt 0
         else PyFloat (percent R (successful st) (total_attempted st)))
    \<and> (total_attempted st = 3 \<and> failed st = 1 \<longrightarrow>
          successful st = 2 \<and> success_rate st = PyFloat (percent R 2 3))"
proof -
  from assms obtain t s fl where
    sw: "sweep_loop R cfg (combinations cfg) 0 0 [] w = Inr ((t, s, fl), w')"
    and st: "st = \<lparr>total_attempted = t, successful = s, failed = int (length fl),
        success_rate = (if t > 0 then PyFloat (percent R s t) else PyInt 0),
        failed_instances = fl\<rparr>"
    by (auto simp: generate_instances_def split: sum.splits)
  from sweep_loop_counts [OF sw] have t: "t = int (length (combinations cfg))"
    and s: "s + int (length fl) = t" by simp_all
  from t have "0 \<le> t" by simp
  with st t s show ?thesis by auto
qed

theorem statistics_success_rate_witness:
  "\<exists>st u. generate_instances lcg_runtime scenario_cfg empty_world = Inr (st, u)
     \<and> total_attempted st = 3 \<and> successful st = 2 \<and> failed st = 1
     \<and> success_rate st = PyFloat (200 / 3)
     \<and> failed_instances st = [(200, 1, 1, 1 / 20, 3 / 20, 1 / 100, 1 / 10, 0, 0)]
     \<and> \<bar>200 / 3 - 6667 / 100\<bar> < (1 / 100 :: rat)"
proof -
  let ?t1 = "(200, 2, 1, 1 / 20, 3 / 20, 1 / 100, 1 / 10, 0, 0) :: rat params"
  let ?t2 = "(200, 4, 1, 1 / 20, 3 / 20, 1 / 100, 1 / 10, 0, 0) :: rat params"
  let ?t3 = "(200, 1, 1, 1 / 20, 3 / 20, 1 / 100, 1 / 10, 0, 0) :: rat params"
  have comb: "combinations scenario_cfg = [?t1, ?t2, ?t3]"
    by (simp add: combinations_def scenario_cfg_def)
  have b: "floor_mul lcg_runtime 200 (1 / 20) = Inr 10" "ceil_mul lcg_runtime 200 (3 / 20) = Inr 30"
    "floor_mul lcg_runtime 200 (1 / 100) = Inr 2" "ceil_mul lcg_runtime 200 (1 / 10) = Inr 20"
    by (simp_all add: lcg_runtime_def)
  have mi: "min_items_per_class scenario_cfg = 2"
    by (simp add: scenario_cfg_def)
  from single_class_accepted [OF b, of 2 scenario_cfg 0 0 empty_world] mi obtain w1 where
    g1: "generate_single_instance lcg_runtime scenario_cfg 200 2 1
        (1 / 20) (3 / 20) (1 / 100) (1 / 10) 0 0 empty_world = Inr (True, w1)"
    by auto
  from single_class_accepted [OF b, of 4 scenario_cfg 0 0 w1] mi obtain w2 where
    g2: "generate_single_instance lcg_runtime scenario_cfg 200 4 1
        (1 / 20) (3 / 20) (1 / 100) (1 / 10) 0 0 w1 = Inr (True, w2)"
    by auto
  from generate_single_instance_infeasible [OF b, of 1 1 scenario_cfg 0 0 w2] mi obtain w3 where
    g3: "generate_single_instance lcg_runtime scenario_cfg 200 1 1
        (1 / 20) (3 / 20) (1 / 100) (1 / 10) 0 0 w2 = Inr (False, w3)"
    by auto
  have "\<exists>st. generate_instances lcg_runtime scenario_cfg empty_world = Inr (st, w3)
      \<and> failed_instances st = [?t3]"
    by (simp add: generate_instances_def comb g1 g2 g3)
  then obtain st where
    run: "generate_instances lcg_runtime scenario_cfg empty_world = Inr (st, w3)"
    and fi: "failed_instances st = [?t3]"
    by blast
  note stats = statistics_success_rate [OF run]
  from stats comb fi have tf: "total_attempted st = 3" "failed st = 1"
    by simp_all
  with stats have "successful st = 2" and "success_rate st = PyFloat (percent lcg_runtime 2 3)"
    by simp_all
  then have "successful st = 2" and "success_rate st = PyFloat (200 / 3)"
    by (simp_all add: lcg_runtime_def)
  moreover have "\<bar>200 / 3 - 6667 / 100\<bar> < (1 / 100 :: rat)"
    by simp
  ultimately show ?thesis
    using run tf fi by blast
qed

lemma combinations_empty:
  "capacities cfg = [] \<or> num_items cfg = [] \<or> num_classes cfg = []
     \<or> item_weight_ranges cfg = [] \<or> setup_weight_ranges cfg = []
     \<or> setup_cost_flags cfg = [] \<or> seeds cfg = [] \<Longrightarrow> combinations cfg = []"
  by (auto simp: combinations_def)

lemma randint_empty: "b < a \<Longrightarrow> random_randint R a b w = Inl (ValueError, w)"
  by (simp add: randint_Inl)

lemma cost_draws:
  "\<exists>scbc w1 costs.
     (if f = 0 then Inr ((map (\<lambda>cl. (cl, 0::int)) (py_range m), 1::int), random_seed R sd w)
      else (case draw_dict R 1 5 (py_range m) (random_seed R sd w) of
              Inl e \<Rightarrow> Inl e
            | Inr (sc, w1) \<Rightarrow> Inr ((sc, 10), w1))) = Inr (scbc, w1)
     \<and> length costs = nat m
     \<and> trace w1 = trace w @ Seed sd # (if f = 0 then [] else map (Randint 1 5) costs)
     \<and> files w1 = files w"
proof (cases "f = 0")
  case True
  then show ?thesis
    by (intro exI [of _ "(map (\<lambda>cl. (cl, 0)) (py_range m), 1)"]
        exI [of _ "random_seed R sd w"] exI [of _ "replicate (nat m) 0"])
      (simp add: random_seed_def)
next
  case False
  from draw_dict_ok [of 1 5 R "py_range m" "random_seed R sd w"] obtain sc w1 where
    dd: "draw_dict R 1 5 (py_range m) (random_seed R sd w) = Inr (sc, w1)"
    by fastforce
  from draw_dict_char [OF dd] obtain costs where
    "length costs = length (py_range m)"
    "trace w1 = trace (random_seed R sd w) @ map (Randint 1 5) costs"
    "files w1 = files (random_seed R sd w)"
    by blast
  with False dd show ?thesis
    by (intro exI [of _ "(sc, 10)"] exI [of _ w1] exI [of _ costs])
      (simp add: random_seed_def)
qed

lemma draw_instance_empty_weight_range:
  assumes "1 \<le> m" and "1 \<le> n" and "w_max < w_min"
  shows "\<exists>u costs c.
      draw_instance R n m w_min w_max s_min s_max f sd w = Inl (ValueError, u)
      \<and> files u = files w
      \<and> trace u = trace w @ Seed sd # (if f = 0 then [] else map (Randint 1 5) costs)
          @ [Randint 0 (m - 1) c]"
proof -
  obtain j where j: "nat n = Suc j"
    using assms(2) by (cases "nat n") auto
  from cost_draws [of f m R sd w] obtain scbc w1 costs where
    c: "(if f = 0 then Inr ((map (\<lambda>cl. (cl, 0::int)) (py_range m), 1::int), random_seed R sd w)
      else (case draw_dict R 1 5 (py_range m) (random_seed R sd w) of
              Inl e \<Rightarrow> Inl e
            | Inr (sc, w1) \<Rightarrow> Inr ((sc, 10), w1))) = Inr (scbc, w1)"
    and tr: "trace w1 = trace w @ Seed sd # (if f = 0 then [] else map (Randint 1 5) costs)"
    and fl: "files w1 = files w"
    by blast
  obtain sc bc where scbc: "scbc = (sc, bc)" by (cases scbc)
  from assms(1) have "(0::int) \<le> m - 1" by simp
  from randint_ok [OF this] obtain c u where d1: "random_randint R 0 (m - 1) w1 = Inr (c, u)"
    by blast
  from assms(3) have d2: "random_randint R w_min w_max u = Inl (ValueError, u)"
    by (rule randint_empty)
  have "assign_items R m w_min w_max (nat n) (map (\<lambda>cl. (cl, [])) (py_range m)) w1
      = Inl (ValueError, u)"
    by (simp add: j d1 d2)
  then have "draw_instance R n m w_min w_max s_min s_max f sd w = Inl (ValueError, u)"
    by (simp only: draw_instance_def Let_def c scbc sum.case prod.case)
  moreover from randint_Inr(3,4) [OF d1] tr fl have "files u = files w"
    and "trace u = trace w @ Seed sd # (if f = 0 then [] else map (Randint 1 5) costs)
          @ [Randint 0 (m - 1) c]"
    by simp_all
  ultimately show ?thesis by blast
qed

lemma draw_instance_empty_setup_range:
  assumes "1 \<le> m" and "n \<le> 0 \<or> w_min \<le> w_max" and "s_max < s_min"
  shows "\<exists>u costs asg.
      draw_instance R n m w_min w_max s_min s_max f sd w = Inl (ValueError, u)
      \<and> files u = files w
      \<and> trace u = trace w @ Seed sd # (if f = 0 then [] else map (Randint 1 5) costs)
          @ item_events m w_min w_max asg"
proof -
  let ?cs0 = "map (\<lambda>cl. (cl, [])) (py_range m)"
  from cost_draws [of f m R sd w] obtain scbc w1 costs where
    c: "(if f = 0 then Inr ((map (\<lambda>cl. (cl, 0::int)) (py_range m), 1::int), random_seed R sd w)
      else (case draw_dict R 1 5 (py_range m) (random_seed R sd w) of
              Inl e \<Rightarrow> Inl e
            | Inr (sc, w1) \<Rightarrow> Inr ((sc, 10), w1))) = Inr (scbc, w1)"
    and tr: "trace w1 = trace w @ Seed sd # (if f = 0 then [] else map (Randint 1 5) costs)"
    and fl: "files w1 = files w"
    by blast
  obtain sc bc where scbc: "scbc = (sc, bc)" by (cases scbc)
  have "{0..m - 1} \<subseteq> fst ` set ?cs0" by (simp add: image_image)
  moreover from assms(2) have "nat n = 0 \<or> w_min \<le> w_max" by auto
  ultimately obtain cs u where a: "assign_items R m w_min w_max (nat n) ?cs0 w1 = Inr (cs, u)"
    using assign_items_ok [OF assms(1), of "nat n" w_min w_max ?cs0 R w1] by fastforce
  have "distinct (map fst ?cs0)" by (simp add: comp_def)
  from assign_items_char [OF a this] obtain asg where
    a_tr: "trace u = trace w1 @ item_events m w_min w_max asg"
    and a_fl: "files u = files w1"
    and cs: "cs = map (\<lambda>(cl, ws). (cl, ws @ picks cl asg)) ?cs0"
    by blast
  have keys: "map fst cs = py_range m"
    by (simp add: cs comp_def)
  from assms(1) obtain k ks where ks: "py_range m = k # ks"
    by (cases "py_range m") auto
  have "draw_setups R s_min s_max (map fst cs) (map (\<lambda>cl. (cl, 0)) (py_range m)) u
      = Inl (ValueError, u)"
    unfolding keys using assms(3) by (simp add: ks randint_empty)
  with a have "draw_instance R n m w_min w_max s_min s_max f sd w = Inl (ValueError, u)"
    by (simp only: draw_instance_def Let_def c scbc sum.case prod.case)
  moreover from a_tr a_fl tr fl have "files u = files w"
    and "trace u = trace w @ Seed sd # (if f = 0 then [] else map (Randint 1 5) costs)
          @ item_events m w_min w_max asg"
    by simp_all
  ultimately show ?thesis by blast
qed

lemma generate_single_instance_empty_range:
  assumes "floor_mul R d v1 = Inr w_min" and "ceil_mul R d v2 = Inr w_max"
    and "floor_mul R d s1 = Inr s_min" and "ceil_mul R d s2 = Inr s_max"
    and "1 \<le> m"
    and "(1 \<le> n \<and> w_max < w_min) \<or> ((n \<le> 0 \<or> w_min \<le> w_max) \<and> s_max < s_min)"
  shows "\<exists>u. generate_single_instance R cfg d n m v1 v2 s1 s2 f seed w = Inl (ValueError, u)
      \<and> files u = files w
      \<and> seeds_of (trace u) = seeds_of (trace w) @ [seed]"
proof -
  have "\<exists>u. draw_instance R n m w_min w_max s_min s_max f (seed + 0) w = Inl (ValueError, u)
      \<and> files u = files w \<and> seeds_of (trace u) = seeds_of (trace w) @ [seed]"
  proof (cases "1 \<le> n \<and> w_max < w_min")
    case True
    with draw_instance_empty_weight_range [OF assms(5), of n w_max w_min R s_min s_max f "seed + 0" w]
    obtain u costs c where
      "draw_instance R n m w_min w_max s_min s_max f (seed + 0) w = Inl (ValueError, u)"
      "files u = files w"
      "trace u = trace w @ Seed (seed + 0) # (if f = 0 then [] else map (Randint 1 5) costs)
          @ [Randint 0 (m - 1) c]"
      by blast
    then show ?thesis by (intro exI [of _ u]) simp
  next
    case False
    with assms(6) have "n \<le> 0 \<or> w_min \<le> w_max" and "s_max < s_min" by auto
    from draw_instance_empty_setup_range [OF assms(5) this, of R f "seed + 0" w]
    obtain u costs asg where
      "draw_instance R n m w_min w_max s_min s_max f (seed + 0) w = Inl (ValueError, u)"
      "files u = files w"
      "trace u = trace w @ Seed (seed + 0) # (if f = 0 then [] else map (Randint 1 5) costs)
          @ item_events m w_min w_max asg"
      by blast
    then show ?thesis by (intro exI [of _ u]) simp
  qed
  then obtain u where
    di: "draw_instance R n m w_min w_max s_min s_max f (seed + 0) w = Inl (ValueError, u)"
    and u: "files u = files w" "seeds_of (trace u) = seeds_of (trace w) @ [seed]"
    by blast
  from di have "attempt R cfg d n m w_min w_max s_min s_max f seed False 0 w = Inl (ValueError, u)"
    by (simp add: attempt_def)
  then have "while_loop R cfg d n m w_min w_max s_min s_max f seed False 0 w = Inl (ValueError, u)"
    by (simp add: while_loop_step max_attempts_def)
  with u show ?thesis
    by (simp add: generate_single_instance_bounds [OF assms(1-4)])
qed

lemma generate_single_instance_same_bounds:
  assumes "floor_mul R d v1 = floor_mul R d v1'" and "ceil_mul R d v2 = ceil_mul R d v2'"
    and "floor_mul R d s1 = floor_mul R d s1'" and "ceil_mul R d s2 = ceil_mul R d s2'"
  shows "generate_single_instance R cfg d n m v1 v2 s1 s2 f seed w =
     generate_single_instance R cfg d n m v1' v2' s1' s2' f seed w"
  unfolding generate_single_instance_def assms by (rule refl)

text \<open>
  Claim C5, as amended. The configuration is not validated before generation,
  and nothing is surfaced as a configuration error. A configuration with an
  empty dimension list has no combinations: the sweep returns its statistics
  with \<open>total_attempted = 0\<close> and \<open>success_rate = 0\<close>, and changes nothing. A
  fraction pair reaches the builder as it is and is used only through the bounds
  derived from it: a pair with \<open>min > max\<close> is treated exactly as any pair with
  the same \<open>floor (d * min)\<close> and \<open>ceil (d * max)\<close>. When the derived bounds are an
  empty range (\<open>w_max < w_min\<close> with at least one item, or \<open>s_max < s_min\<close>) and
  there is at least one class, the first attempt of the builder raises
  ValueError at the draw from that range and the builder does not retry: when
  the exception leaves the builder, the generator has been reseeded once, with
  \<open>seed\<close>, and no file has been written. The sweep ends with this exception at
  that tuple, in that state.
\<close>

theorem malformed_configuration_not_validated:
  "(capacities cfg = [] \<or> num_items cfg = [] \<or> num_classes cfg = []
      \<or> item_weight_ranges cfg = [] \<or> setup_weight_ranges cfg = []
      \<or> setup_cost_flags cfg = [] \<or> seeds cfg = []
     \<longrightarrow> generate_instances R cfg w =
          Inr (\<lparr>total_attempted = 0, successful = 0, failed = 0, success_rate = PyInt 0,
                failed_instances = []\<rparr>, w))
   \<and> (floor_mul R d v1 = floor_mul R d v1' \<and> ceil_mul R d v2 = ceil_mul R d v2'
      \<and> floor_mul R d s1 = floor_mul R d s1' \<and> ceil_mul R d s2 = ceil_mul R d s2'
     \<longrightarrow> generate_single_instance R cfg d n m v1 v2 s1 s2 f seed w =
         generate_single_instance R cfg d n m v1' v2' s1' s2' f seed w)
   \<and> (floor_mul R d v1 = Inr w_min \<and> ceil_mul R d v2 = Inr w_max
      \<and> floor_mul R d s1 = Inr s_min \<and> ceil_mul R d s2 = Inr s_max
      \<and> 1 \<le> m
      \<and> ((1 \<le> n \<and> w_max < w_min) \<or> ((n \<le> 0 \<or> w_min \<le> w_max) \<and> s_max < s_min))
     \<longrightarrow> (\<exists>u. generate_single_instance R cfg d n m v1 v2 s1 s2 f seed w = Inl (ValueError, u)
           \<and> seeds_of (trace u) = seeds_of (trace w) @ [seed]
           \<and> files u = files w
           \<and> sweep_loop R cfg ((d, n, m, v1, v2, s1, s2, f, seed) # rest) t s fl w
               = Inl (ValueError, u)))"
proof (intro conjI impI)
  assume "capacities cfg = [] \<or> num_items cfg = [] \<or> num_classes cfg = []
      \<or> item_weight_ranges cfg = [] \<or> setup_weight_ranges cfg = []
      \<or> setup_cost_flags cfg = [] \<or> seeds cfg = []"
  then have "combinations cfg = []" by (rule combinations_empty)
  then show "generate_instances R cfg w =
      Inr (\<lparr>total_attempted = 0, successful = 0, failed = 0, success_rate = PyInt 0,
            failed_instances = []\<rparr>, w)"
    by (simp add: generate_instances_def)
next
  assume "floor_mul R d v1 = floor_mul R d v1' \<and> ceil_mul R d v2 = ceil_mul R d v2'
      \<and> floor_mul R d s1 = floor_mul R d s1' \<and> ceil_mul R d s2 = ceil_mul R d s2'"
  then show "generate_single_instance R cfg d n m v1 v2 s1 s2 f seed w =
      generate_single_instance R cfg d n m v1' v2' s1' s2' f seed w"
    by (intro generate_single_instance_same_bounds) simp_all
next
  assume a: "floor_mul R d v1 = Inr w_min \<and> ceil_mul R d v2 = Inr w_max
      \<and> floor_mul R d s1 = Inr s_min \<and> ceil_mul R d s2 = Inr s_max
      \<and> 1 \<le> m
      \<and> ((1 \<le> n \<and> w_max < w_min) \<or> ((n \<le> 0 \<or> w_min \<le> w_max) \<and> s_max < s_min))"
  then have "\<exists>u. generate_single_instance R cfg d n m v1 v2 s1 s2 f seed w = Inl (ValueError, u)
      \<and> files u = files w \<and> seeds_of (trace u) = seeds_of (trace w) @ [seed]"
    by (intro generate_single_instance_empty_range [of R d v1 w_min v2 w_max s1 s_min s2 s_max])
      simp_all
  then obtain u where
    g: "generate_single_instance R cfg d n m v1 v2 s1 s2 f seed w = Inl (ValueError, u)"
    and u: "files u = files w" "seeds_of (trace u) = seeds_of (trace w) @ [seed]"
    by blast
  from g have "sweep_loop R cfg ((d, n, m, v1, v2, s1, s2, f, seed) # rest) t s fl w
      = Inl (ValueError, u)"
    by simp
  with g u show "\<exists>u. generate_single_instance R cfg d n m v1 v2 s1 s2 f seed w = Inl (ValueError, u)
      \<and> seeds_of (trace u) = seeds_of (trace w) @ [seed]
      \<and> files u = files w
      \<and> sweep_loop R cfg ((d, n, m, v1, v2, s1, s2, f, seed) # rest) t s fl w
          = Inl (ValueError, u)"
    by blast
qed

theorem malformed_configuration_not_validated_witness:
  "seeds no_seeds_cfg = []
   \<and> generate_instances lcg_runtime no_seeds_cfg empty_world =
       Inr (\<lparr>total_attempted = 0, successful = 0, failed = 0, success_rate = PyInt 0,
             failed_instances = []\<rparr>, empty_world)
   \<and> floor_mul lcg_runtime 200 (3 / 20) = floor_mul lcg_runtime 200 (3 / 20)
   \<and> ceil_mul lcg_runtime 200 (149 / 1000) = ceil_mul lcg_runtime 200 (3 / 20)
   \<and> generate_single_instance lcg_runtime unordered_cfg 200 1 1
         (3 / 20) (149 / 1000) (1 / 100) (1 / 10) 0 0 empty_world =
       generate_single_instance lcg_runtime unordered_cfg 200 1 1
         (3 / 20) (3 / 20) (1 / 100) (1 / 10) 0 0 empty_world
   \<and> floor_mul lcg_runtime 200 (3 / 20) = Inr 30 \<and> ceil_mul lcg_runtime 200 (1 / 10) = Inr 20
   \<and> floor_mul lcg_runtime 200 (1 / 100) = Inr 2 \<and> ceil_mul lcg_runtime 200 (1 / 10) = Inr 20
   \<and> (1::int) \<le> 1 \<and> (20::int) < 30
   \<and> (\<exists>u. generate_single_instance lcg_runtime unordered_cfg 200 1 1
           (3 / 20) (1 / 10) (1 / 100) (1 / 10) 0 0 empty_world = Inl (ValueError, u)
         \<and> seeds_of (trace u) = seeds_of (trace empty_world) @ [0]
         \<and> files u = files empty_world
         \<and> sweep_loop lcg_runtime unordered_cfg
              [(200, 1, 1, 3 / 20, 1 / 10, 1 / 100, 1 / 10, 0, 0)] 0 0 [] empty_world
            = Inl (ValueError, u))"
proof -
  have h: "seeds no_seeds_cfg = []"
    "floor_mul lcg_runtime 200 (3 / 20) = Inr 30" "ceil_mul lcg_runtime 200 (1 / 10) = Inr 20"
    "floor_mul lcg_runtime 200 (1 / 100) = Inr 2"
    by (simp_all add: no_seeds_cfg_def lcg_runtime_def)
  have c: "ceil_mul lcg_runtime 200 (149 / 1000) = ceil_mul lcg_runtime 200 (3 / 20)"
    by code_simp
  note inst = malformed_configuration_not_validated
    [where R = lcg_runtime and w = empty_world and d = 200 and m = 1 and n = 1 and f = 0
      and seed = 0 and rest = "[]" and t = 0 and s = 0 and fl = "[]"
      and ?s1.0 = "1 / 100" and ?s1'.0 = "1 / 100" and s_min = 2
      and ?s2.0 = "1 / 10" and ?s2'.0 = "1 / 10" and s_max = 20]
  from inst [where cfg = no_seeds_cfg and ?v1.0 = "3 / 20" and ?v1'.0 = "3 / 20"
      and ?v2.0 = "149 / 1000" and ?v2'.0 = "3 / 20" and w_min = 30 and w_max = 30]
    inst [where cfg = unordered_cfg and ?v1.0 = "3 / 20" and ?v1'.0 = "3 / 20"
      and ?v2.0 = "149 / 1000" and ?v2'.0 = "3 / 20" and w_min = 30 and w_max = 30]
    inst [where cfg = unordered_cfg and ?v1.0 = "3 / 20" and ?v1'.0 = "3 / 20"
      and ?v2.0 = "1 / 10" and ?v2'.0 = "1 / 10" and w_min = 30 and w_max = 20]
  show ?thesis using h c by simp
qed

text \<open>
  The claim as stated fails: a configuration without seeds is swept without an
  error, and a configuration whose item-weight pair is \<open>(0.15, 0.149)\<close> yields an
  instance, since \<open>floor (200 * 0.15) = 30 = ceil (200 * 0.149)\<close>.
\<close>

theorem malformed_configuration_counterexample:
  "generate_instances lcg_runtime no_seeds_cfg empty_world =
       Inr (\<lparr>total_attempted = 0, successful = 0, failed = 0, success_rate = PyInt 0,
             failed_instances = []\<rparr>, empty_world)
   \<and> item_weight_ranges unordered_cfg = [(3 / 20, 149 / 1000)]
   \<and> (149 / 1000 :: rat) < 3 / 20
   \<and> map_sum fst (\<lambda>p. (total_attempted (fst p), successful (fst p), failed (fst p),
          success_rate (fst p), failed_instances (fst p)))
        (generate_instances lcg_runtime unordered_cfg empty_world) =
       Inr (1, 1, 0, PyFloat 100, [])"
proof -
  have "generate_instances lcg_runtime no_seeds_cfg empty_world =
       Inr (\<lparr>total_attempted = 0, successful = 0, failed = 0, success_rate = PyInt 0,
             failed_instances = []\<rparr>, empty_world)"
    by (simp add: generate_instances_def combinations_def no_seeds_cfg_def)
  moreover have "item_weight_ranges unordered_cfg = [(3 / 20, 149 / 1000)]"
    by (simp add: unordered_cfg_def)
  moreover have "(149 / 1000 :: rat) < 3 / 20"
    by simp
  moreover have "map_sum fst (\<lambda>p. (total_attempted (fst p), successful (fst p), failed (fst p),
          success_rate (fst p), failed_instances (fst p)))
        (generate_instances lcg_runtime unordered_cfg empty_world) =
       Inr (1, 1, 0, PyFloat 100, [])"
    by code_simp
  ultimately show ?thesis by blast
qed

lemma randint_value:
  assumes "randbelow R (gen u) (b + 1 - a) = (r, g')" and "0 \<le> r" and "r < b + 1 - a"
  shows "random_randint R a b u =
     Inr (a + r, u\<lparr>gen := g', trace := trace u @ [Randint a b (a + r)]\<rparr>)"
  using assms by (simp add: random_randint_def Let_def)

text \<open>
  Claim C1, as amended. In every attempt that completes, the calls to the
  generator are, in this order: the reseeding with \<open>seed + k\<close>; when \<open>f \<noteq> 0\<close>,
  one setup cost from \<open>[1, 5]\<close> for each class, the draw number \<open>cl\<close> being the cost
  of class \<open>cl\<close>; for each of the \<open>n\<close> items in turn a class index from
  \<open>[0, m - 1]\<close> followed by a weight from \<open>[w_min, w_max]\<close>, which is appended to
  the list of that class; for each class a setup weight from \<open>[s_min, s_max]\<close>,
  the draw number \<open>cl\<close> being the setup weight of class \<open>cl\<close>. With \<open>f = 0\<close> no setup
  cost is drawn and every setup cost is 0. The attempt draws nothing after
  that, and when it accepts, the file holds these values. Every draw is a call
  \<^verbatim>\<open>random.randint(a, b)\<close>, the uniform draw of the library: its value is \<open>a\<close> plus
  the output of the generator below \<open>b + 1 - a\<close>.
\<close>

theorem attempt_draw_order:
  assumes "attempt R cfg d n m w_min w_max s_min s_max f seed found k w = Inr (b, w')"
  shows "(\<exists>inst w1 costs asg sws.
        draw_instance R n m w_min w_max s_min s_max f (seed + k) w = Inr (inst, w1)
        \<and> trace w' = trace w1
        \<and> valid_draw n m w_min w_max s_min s_max f costs asg sws
        \<and> trace w1 = trace w @ Seed (seed + k)
            # (if f = 0 then [] else map (Randint 1 5) costs)
            @ item_events m w_min w_max asg
            @ map (Randint s_min s_max) sws
        \<and> (\<forall>cl \<in> set (py_range m).
              map_of (setup_costs inst) cl = Some (costs ! nat cl)
              \<and> map_of (classes inst) cl = Some (picks cl asg)
              \<and> map_of (setups inst) cl = Some (sws ! nat cl))
        \<and> (if enough_items m (min_items_per_class cfg) asg
            then b \<and> files w' = (files w)
              ((output_directory cfg, generate_filename d n m w_min w_max s_min s_max f seed)
                 \<mapsto> render (instance_table n m d f costs asg sws))
            else b = found \<and> files w' = files w))
    \<and> (\<forall>lo hi u r g'.
          randbelow R (gen u) (hi + 1 - lo) = (r, g') \<and> 0 \<le> r \<and> r < hi + 1 - lo
          \<longrightarrow> random_randint R lo hi u =
                Inr (lo + r, u\<lparr>gen := g', trace := trace u @ [Randint lo hi (lo + r)]\<rparr>))"
proof (intro conjI allI impI)
  from assms obtain inst w1 where
    di: "draw_instance R n m w_min w_max s_min s_max f (seed + k) w = Inr (inst, w1)"
    by (auto simp: attempt_def split: sum.splits)
  from draw_instance_char [OF di] obtain costs asg sws where
    len: "length costs = nat m" "length asg = nat n" "length sws = nat m"
    and rng: "if f = 0 then costs = replicate (nat m) 0 else \<forall>c \<in> set costs. 1 \<le> c \<and> c \<le> 5"
      "\<forall>p \<in> set asg. 0 \<le> fst p \<and> fst p \<le> m - 1 \<and> w_min \<le> snd p \<and> snd p \<le> w_max"
      "\<forall>s \<in> set sws. s_min \<le> s \<and> s \<le> s_max"
    and tr: "trace w1 = trace w @ draw_events m w_min w_max s_min s_max f (seed + k) costs asg sws"
    and fl: "files w1 = files w"
    and inst: "bin_cost inst = (if f = 0 then 1 else 10)"
      "classes inst = map (\<lambda>cl. (cl, picks cl asg)) (py_range m)"
      "setup_costs inst = zip (py_range m) costs"
      "map_of (setups inst) = map_of (zip (py_range m) sws)"
      "items inst = concat (map (\<lambda>cl. picks cl asg) (py_range m))"
    by blast
  have vd: "valid_draw n m w_min w_max s_min s_max f costs asg sws"
    unfolding valid_draw_def using len rng by simp
  have lookups: "\<forall>cl \<in> set (py_range m).
      map_of (setup_costs inst) cl = Some (costs ! nat cl)
      \<and> map_of (classes inst) cl = Some (picks cl asg)
      \<and> map_of (setups inst) cl = Some (sws ! nat cl)"
    by (simp add: inst(2,3,4) map_of_keys map_of_zip_range len)
  have acc: "accepted m (min_items_per_class cfg) (classes inst) =
      (if m \<le> 0 then Inl ValueError else Inr (enough_items m (min_items_per_class cfg) asg))"
    by (simp add: inst(2) accepted_char enough_items_def)
  from assms di acc have m: "1 \<le> m"
    by (auto simp: attempt_def split: if_splits)
  have wr: "write_instance_file cfg d n m w_min w_max s_min s_max f seed inst w1 =
     Inr (w1\<lparr>files := (files w1)
       ((output_directory cfg, generate_filename d n m w_min w_max s_min s_max f seed)
          \<mapsto> render (instance_table n m d f costs asg sws))\<rparr>)"
    using len(1,3) inst(2,3,4,5,1) by (rule write_instance_file_char)
  have res: "trace w' = trace w1
      \<and> (if enough_items m (min_items_per_class cfg) asg
          then b \<and> files w' = (files w)
            ((output_directory cfg, generate_filename d n m w_min w_max s_min s_max f seed)
               \<mapsto> render (instance_table n m d f costs asg sws))
          else b = found \<and> files w' = files w)"
  proof (cases "enough_items m (min_items_per_class cfg) asg")
    case True
    with assms di acc m wr have "b" and "w' = w1\<lparr>files := (files w1)
       ((output_directory cfg, generate_filename d n m w_min w_max s_min s_max f seed)
          \<mapsto> render (instance_table n m d f costs asg sws))\<rparr>"
      by (auto simp: attempt_def)
    with True fl show ?thesis by simp
  next
    case False
    with assms di acc m have "b = found" and "w' = w1"
      by (auto simp: attempt_def)
    with False fl show ?thesis by simp
  qed
  have tr': "trace w1 = trace w @ Seed (seed + k)
            # (if f = 0 then [] else map (Randint 1 5) costs)
            @ item_events m w_min w_max asg
            @ map (Randint s_min s_max) sws"
    using tr by (simp add: draw_events_def)
  from di res vd tr' lookups show "\<exists>inst w1 costs asg sws.
        draw_instance R n m w_min w_max s_min s_max f (seed + k) w = Inr (inst, w1)
        \<and> trace w' = trace w1
        \<and> valid_draw n m w_min w_max s_min s_max f costs asg sws
        \<and> trace w1 = trace w @ Seed (seed + k)
            # (if f = 0 then [] else map (Randint 1 5) costs)
            @ item_events m w_min w_max asg
            @ map (Randint s_min s_max) sws
        \<and> (\<forall>cl \<in> set (py_range m).
              map_of (setup_costs inst) cl = Some (costs ! nat cl)
              \<and> map_of (classes inst) cl = Some (picks cl asg)
              \<and> map_of (setups inst) cl = Some (sws ! nat cl))
        \<and> (if enough_items m (min_items_per_class cfg) asg
            then b \<and> files w' = (files w)
              ((output_directory cfg, generate_filename d n m w_min w_max s_min s_max f seed)
                 \<mapsto> render (instance_table n m d f costs asg sws))
            else b = found \<and> files w' = files w)"
    by blast
next
  fix lo hi r and u :: "'a world" and g' :: 'a
  assume "randbelow R (gen u) (hi + 1 - lo) = (r, g') \<and> 0 \<le> r \<and> r < hi + 1 - lo"
  then show "random_randint R lo hi u =
      Inr (lo + r, u\<lparr>gen := g', trace := trace u @ [Randint lo hi (lo + r)]\<rparr>)"
    by (intro randint_value) simp_all
qed

theorem attempt_draw_order_witness:
  "(\<exists>w' inst w1 costs asg sws.
      attempt lcg_runtime unit_cfg 200 1 1 10 30 2 20 1 0 False 0 empty_world = Inr (True, w')
      \<and> draw_instance lcg_runtime 1 1 10 30 2 20 1 (0 + 0) empty_world = Inr (inst, w1)
      \<and> trace w' = trace w1
      \<and> valid_draw 1 1 10 30 2 20 1 costs asg sws
      \<and> trace w1 = trace empty_world @ Seed (0 + 0)
          # (if (1::int) = 0 then [] else map (Randint 1 5) costs)
          @ item_events 1 10 30 asg
          @ map (Randint 2 20) sws
      \<and> trace w1 = [Seed 0, Randint 1 5 1, Randint 0 0 0, Randint 10 30 16, Randint 2 20 15]
      \<and> (\<forall>cl \<in> set (py_range 1).
            map_of (setup_costs inst) cl = Some (costs ! nat cl)
            \<and> map_of (classes inst) cl = Some (picks cl asg)
            \<and> map_of (setups inst) cl = Some (sws ! nat cl)))
   \<and> randbelow lcg_runtime (gen empty_world) (30 + 1 - 10) = (0, 12345)
   \<and> random_randint lcg_runtime 10 30 empty_world =
       Inr (10 + 0, empty_world\<lparr>gen := 12345,
                      trace := trace empty_world @ [Randint 10 30 (10 + 0)]\<rparr>)"
proof -
  have "map_sum fst (\<lambda>p. (fst p, trace (snd p)))
      (attempt lcg_runtime unit_cfg 200 1 1 10 30 2 20 1 0 False 0 empty_world)
      = Inr (True, [Seed 0, Randint 1 5 1, Randint 0 0 0, Randint 10 30 16, Randint 2 20 15])"
    by code_simp
  then obtain w' where
    run: "attempt lcg_runtime unit_cfg 200 1 1 10 30 2 20 1 0 False 0 empty_world = Inr (True, w')"
    and tr: "trace w' = [Seed 0, Randint 1 5 1, Randint 0 0 0, Randint 10 30 16, Randint 2 20 15]"
    by (cases "attempt lcg_runtime unit_cfg 200 1 1 10 30 2 20 1 0 False 0 empty_world") auto
  have rb: "randbelow lcg_runtime (gen empty_world) (30 + 1 - 10) = (0, 12345)"
    by (simp add: lcg_runtime_def empty_world_def)
  note order = attempt_draw_order [OF run]
  from order have "\<exists>inst w1 costs asg sws.
      draw_instance lcg_runtime 1 1 10 30 2 20 1 (0 + 0) empty_world = Inr (inst, w1)
      \<and> trace w' = trace w1
      \<and> valid_draw 1 1 10 30 2 20 1 costs asg sws
      \<and> trace w1 = trace empty_world @ Seed (0 + 0)
          # (if (1::int) = 0 then [] else map (Randint 1 5) costs)
          @ item_events 1 10 30 asg
          @ map (Randint 2 20) sws
      \<and> (\<forall>cl \<in> set (py_range 1).
            map_of (setup_costs inst) cl = Some (costs ! nat cl)
            \<and> map_of (classes inst) cl = Some (picks cl asg)
            \<and> map_of (setups inst) cl = Some (sws ! nat cl))"
    by blast
  moreover from order [THEN conjunct2, rule_format,
      where lo = 10 and hi = 30 and u = empty_world and r = 0 and g' = 12345] rb
  have "random_randint lcg_runtime 10 30 empty_world =
       Inr (10 + 0, empty_world\<lparr>gen := 12345,
                      trace := trace empty_world @ [Randint 10 30 (10 + 0)]\<rparr>)"
    by simp
  ultimately show ?thesis
    using run tr rb by force
qed

text \<open>
  The claim as stated fails: with \<open>f = 1\<close>, one class and one item, the attempt
  draws the setup cost first, where the order of the claim has it last.
\<close>

theorem draw_order_counterexample:
  "map_sum fst (\<lambda>p. trace (snd p))
      (attempt lcg_runtime unit_cfg 200 1 1 10 30 2 20 1 0 False 0 empty_world) =
     Inr [Seed 0, Randint 1 5 1, Randint 0 0 0, Randint 10 30 16, Randint 2 20 15]
   \<and> spec_draw_events 1 10 30 2 20 1 0 [1] [(0, 16)] [15] =
     [Seed 0, Randint 0 0 0, Randint 10 30 16, Randint 2 20 15, Randint 1 5 1]
   \<and> [Seed 0, Randint 1 5 1, Randint 0 0 0, Randint 10 30 16, Randint 2 20 15]
     \<noteq> spec_draw_events 1 10 30 2 20 1 0 [1] [(0, 16)] [15]
   \<and> \<not> (\<exists>costs asg sws.
         [Seed 0, Randint 1 5 1, Randint 0 0 0, Randint 10 30 16, Randint 2 20 15]
         = spec_draw_events 1 10 30 2 20 1 0 costs asg sws)"
proof -
  have "map_sum fst (\<lambda>p. trace (snd p))
      (attempt lcg_runtime unit_cfg 200 1 1 10 30 2 20 1 0 False 0 empty_world) =
     Inr [Seed 0, Randint 1 5 1, Randint 0 0 0, Randint 10 30 16, Randint 2 20 15]"
    by code_simp
  moreover have "spec_draw_events 1 10 30 2 20 1 0 [1] [(0, 16)] [15] =
     [Seed 0, Randint 0 0 0, Randint 10 30 16, Randint 2 20 15, Randint 1 5 1]"
    by (simp add: spec_draw_events_def item_events_def)
  moreover have "\<not> (\<exists>costs asg sws.
         [Seed 0, Randint 1 5 1, Randint 0 0 0, Randint 10 30 16, Randint 2 20 15]
         = spec_draw_events 1 10 30 2 20 1 0 costs asg sws)"
  proof
    assume "\<exists>costs asg sws.
         [Seed 0, Randint 1 5 1, Randint 0 0 0, Randint 10 30 16, Randint 2 20 15]
         = spec_draw_events 1 10 30 2 20 1 0 costs asg sws"
    then obtain costs asg sws where
      eq: "[Seed 0, Randint 1 5 1, Randint 0 0 0, Randint 10 30 16, Randint 2 20 15]
         = spec_draw_events 1 10 30 2 20 1 0 costs asg sws"
      by blast
    show False
    proof (cases asg)
      case (Cons p ps)
      with eq show False by (simp add: spec_draw_events_def item_events_def)
    next
      case Nil
      show False
      proof (cases sws)
        case (Cons x xs)
        with Nil eq show False by (simp add: spec_draw_events_def item_events_def)
      next
        case sws: Nil
        with Nil eq have "[Randint 1 5 1, Randint 0 0 0, Randint 10 30 16, Randint 2 20 15]
            = map (Randint 1 5) costs"
          by (simp add: spec_draw_events_def item_events_def)
        then show False
          by (cases costs; cases "tl costs") auto
      qed
    qed
  qed
  ultimately show ?thesis by simp
qed
















lemma digit_cases:
  "k < 10 \<Longrightarrow> k = 0 \<or> k = 1 \<or> k = 2 \<or> k = 3 \<or> k = 4 \<or> k = 5 \<or> k = 6 \<or> k = 7 \<or> k = 8
     \<or> k = (9::nat)"
  by arith

lemma digit_char_props:
  assumes "k < 10"
  shows "digit_val (digit_char k) = k" and "digit_char k \<noteq> NL" and "digit_char k \<noteq> TAB"
    and "digit_char k \<noteq> CHR ''-''"
  using digit_cases [OF assms] by (auto simp: digit_char_def digit_val_def)

lemma str_nat_chars:
  "c \<in> set (str_nat k) \<Longrightarrow> c \<noteq> NL \<and> c \<noteq> TAB \<and> c \<noteq> CHR ''-''"
proof (induction k rule: str_nat.induct)
  case (1 k)
  show ?case
  proof (cases "k < 10")
    case True
    with "1.prems" digit_char_props [OF True] show ?thesis
      by (simp add: str_nat.simps)
  next
    case False
    have "k mod 10 < 10" by simp
    from digit_char_props [OF this] "1.prems" "1.IH" False show ?thesis
      by (subst (asm) str_nat.simps) auto
  qed
qed

lemma str_nat_not_Nil: "str_nat k \<noteq> []"
  by (subst str_nat.simps) simp

lemma read_nat_snoc: "read_nat (xs @ [c]) = 10 * read_nat xs + digit_val c"
  by (simp add: read_nat_def)

lemma read_nat_str_nat: "read_nat (str_nat k) = k"
proof (induction k rule: str_nat.induct)
  case (1 k)
  show ?case
  proof (cases "k < 10")
    case True
    then show ?thesis
      by (simp add: str_nat.simps [of k] read_nat_def digit_char_props)
  next
    case False
    have "k mod 10 < 10" by simp
    from digit_char_props(1) [OF this] "1.IH" False show ?thesis
      by (simp add: str_nat.simps [of k] read_nat_snoc)
  qed
qed

lemma str_int_chars: "c \<in> set (str_int i) \<Longrightarrow> c \<noteq> NL \<and> c \<noteq> TAB"
  by (auto simp: str_int_def dest: str_nat_chars split: if_splits)

lemma read_int_str_int: "read_int (str_int i) = i"
proof (cases "i < 0")
  case True
  then show ?thesis
    by (simp add: str_int_def read_int_def read_nat_str_nat)
next
  case False
  obtain c cs where s: "str_nat (nat i) = c # cs"
    using str_nat_not_Nil [of "nat i"] by (cases "str_nat (nat i)") auto
  then have "c \<in> set (str_nat (nat i))" by simp
  from str_nat_chars [OF this] have "c \<noteq> CHR ''-''" by simp
  with False s read_nat_str_nat [of "nat i"] show ?thesis
    by (simp add: str_int_def read_int_def)
qed

lemma split_on_none: "c \<notin> set xs \<Longrightarrow> split_on c xs = [xs]"
  by (induction xs) auto

lemma split_on_sep: "c \<notin> set xs \<Longrightarrow> split_on c (xs @ c # ys) = xs # split_on c ys"
  by (induction xs) auto

lemma tab_fields_join:
  "fs \<noteq> [] \<Longrightarrow> \<forall>f \<in> set fs. TAB \<notin> set f \<Longrightarrow> tab_fields (join_tab fs) = fs"
proof (induction fs rule: join_tab.induct)
  case 1
  then show ?case by simp
next
  case (2 x)
  then show ?case by (simp add: tab_fields_def split_on_none)
next
  case (3 x y ys)
  then have "tab_fields (join_tab (y # ys)) = y # ys" by simp
  with "3.prems" show ?case
    by (simp add: tab_fields_def split_on_sep)
qed

lemma join_tab_no_newline: "\<forall>f \<in> set fs. NL \<notin> set f \<Longrightarrow> NL \<notin> set (join_tab fs)"
  by (induction fs rule: join_tab.induct) auto

lemma split_on_lines:
  "\<forall>l \<in> set ls. NL \<notin> set l \<Longrightarrow> split_on NL (concat (map (\<lambda>l. l @ [NL]) ls)) = ls @ [[]]"
proof (induction ls)
  case Nil
  then show ?case by simp
next
  case (Cons l ls)
  then have "split_on NL (l @ NL # concat (map (\<lambda>l. l @ [NL]) ls)) = l # ls @ [[]]"
    by (simp add: split_on_sep)
  then show ?case by simp
qed

lemma render_lines: "render rows = concat (map (\<lambda>l. l @ [NL]) (map (\<lambda>row. join_tab (map str_int row)) rows))"
  by (simp add: render_def comp_def)

lemma row_no_newline: "NL \<notin> set (join_tab (map str_int row))"
  by (rule join_tab_no_newline) (auto dest: str_int_chars)

lemma file_lines_render: "file_lines (render rows) = map (\<lambda>row. join_tab (map str_int row)) rows"
proof -
  have "split_on NL (render rows) = map (\<lambda>row. join_tab (map str_int row)) rows @ [[]]"
    unfolding render_lines by (rule split_on_lines) (auto simp: row_no_newline)
  then show ?thesis by (simp add: file_lines_def)
qed

lemma newline_terminated_render: "newline_terminated (render rows)"
  by (cases rows rule: rev_cases) (simp_all add: newline_terminated_def render_def)

lemma tab_fields_row: "row \<noteq> [] \<Longrightarrow> tab_fields (join_tab (map str_int row)) = map str_int row"
  by (rule tab_fields_join) (auto dest: str_int_chars)

lemma fields_render:
  "\<forall>row \<in> set rows. row \<noteq> [] \<Longrightarrow>
     map tab_fields (file_lines (render rows)) = map (map str_int) rows"
  by (simp add: file_lines_render tab_fields_row comp_def)

lemma read_table_render:
  assumes "\<forall>row \<in> set rows. row \<noteq> []"
  shows "read_table (render rows) = rows"
proof -
  have "read_table (render rows) = map (map read_int) (map tab_fields (file_lines (render rows)))"
    by (simp add: read_table_def comp_def)
  also have "\<dots> = map (map read_int) (map (map str_int) rows)"
    by (simp only: fields_render [OF assms])
  also have "\<dots> = rows"
    by (simp add: comp_def read_int_str_int)
  finally show ?thesis .
qed

lemma instance_table_rows: "\<forall>row \<in> set (instance_table n m d f costs asg sws). row \<noteq> []"
  by (auto simp: instance_table_def class_rows_def weight_rows_def)

lemma takeWhile_prefix:
  "\<forall>x \<in> set xs. P x \<Longrightarrow> \<forall>y \<in> set ys. \<not> P y \<Longrightarrow> takeWhile P (xs @ ys) = xs"
proof (induction xs)
  case Nil
  then show ?case by (cases ys) simp_all
next
  case (Cons x xs)
  then show ?case by simp
qed

lemma dropWhile_prefix:
  "\<forall>x \<in> set xs. P x \<Longrightarrow> \<forall>y \<in> set ys. \<not> P y \<Longrightarrow> dropWhile P (xs @ ys) = ys"
proof (induction xs)
  case Nil
  then show ?case by (cases ys) simp_all
next
  case (Cons x xs)
  then show ?case by simp
qed

lemma class_rows_length: "\<forall>r \<in> set (class_rows m costs asg sws). length r = 3"
  by (simp add: class_rows_def)

lemma weight_rows_length: "\<forall>r \<in> set (weight_rows m asg). \<not> length r = 3"
  by (simp add: weight_rows_def)

lemma rows_of_instance:
  "header_row (render (instance_table n m d f costs asg sws)) = [n, m, d, if f = 0 then 1 else 10]"
  "record_rows (render (instance_table n m d f costs asg sws)) = class_rows m costs asg sws"
  "item_rows (render (instance_table n m d f costs asg sws)) = weight_rows m asg"
proof -
  have tbl: "read_table (render (instance_table n m d f costs asg sws))
      = [n, m, d, if f = 0 then 1 else 10] # class_rows m costs asg sws @ weight_rows m asg"
    unfolding read_table_render [OF instance_table_rows] by (simp add: instance_table_def)
  show "header_row (render (instance_table n m d f costs asg sws))
      = [n, m, d, if f = 0 then 1 else 10]"
    by (simp add: header_row_def tbl)
  show "record_rows (render (instance_table n m d f costs asg sws)) = class_rows m costs asg sws"
    unfolding record_rows_def tbl list.sel
    by (rule takeWhile_prefix [OF class_rows_length weight_rows_length])
  show "item_rows (render (instance_table n m d f costs asg sws)) = weight_rows m asg"
    unfolding item_rows_def tbl list.sel
    by (rule dropWhile_prefix [OF class_rows_length weight_rows_length])
qed

lemma accepted_file:
  assumes "floor_mul R d v1 = Inr w_min" and "ceil_mul R d v2 = Inr w_max"
    and "floor_mul R d s1 = Inr s_min" and "ceil_mul R d s2 = Inr s_max"
    and "generate_single_instance R cfg d n m v1 v2 s1 s2 f seed w = Inr (True, w' :: 'g world)"
  shows "\<exists>costs asg sws k (u :: 'g world).
      valid_draw n m w_min w_max s_min s_max f costs asg sws
      \<and> 1 \<le> m
      \<and> enough_items m (min_items_per_class cfg) asg
      \<and> 0 \<le> k \<and> k < max_attempts
      \<and> trace w' = trace u @ draw_events m w_min w_max s_min s_max f (seed + k) costs asg sws
      \<and> files w' (output_directory cfg, generate_filename d n m w_min w_max s_min s_max f seed)
          = Some (render (instance_table n m d f costs asg sws))"
proof -
  from assms have "while_loop R cfg d n m w_min w_max s_min s_max f seed False 0 w = Inr (True, w')"
    by (simp add: generate_single_instance_bounds)
  from while_loop_success [OF this] obtain k u where
    k: "0 \<le> k" "k < max_attempts"
    and at: "attempt R cfg d n m w_min w_max s_min s_max f seed False k u = Inr (True, w')"
    by auto
  from attempt_char [OF at] obtain costs asg sws where
    vd: "valid_draw n m w_min w_max s_min s_max f costs asg sws" and m: "1 \<le> m"
    and tr: "trace w' = trace u @ draw_events m w_min w_max s_min s_max f (seed + k) costs asg sws"
    and c: "if enough_items m (min_items_per_class cfg) asg
          then True \<and> files w' = (files u)
            ((output_directory cfg, generate_filename d n m w_min w_max s_min s_max f seed)
               \<mapsto> render (instance_table n m d f costs asg sws))
          else True = False \<and> files w' = files u"
    by blast
  from c have en: "enough_items m (min_items_per_class cfg) asg"
    by (simp split: if_splits)
  with c have "files w' (output_directory cfg, generate_filename d n m w_min w_max s_min s_max f seed)
      = Some (render (instance_table n m d f costs asg sws))"
    by simp
  with vd m en k tr show ?thesis by blast
qed

lemma unit_bounds:
  "floor_mul lcg_runtime 200 (1 / 20) = Inr 10" "ceil_mul lcg_runtime 200 (3 / 20) = Inr 30"
  "floor_mul lcg_runtime 200 (1 / 100) = Inr 2" "ceil_mul lcg_runtime 200 (1 / 10) = Inr 20"
  by (simp_all add: lcg_runtime_def)

lemma unit_run:
  "\<exists>w'. generate_single_instance lcg_runtime unit_cfg 200 1 1
      (1 / 20) (3 / 20) (1 / 100) (1 / 10) 1 0 empty_world = Inr (True, w')
     \<and> files w' (''generated_instances'', ''bpps_d200n1m1w10_30s2_20f1_seed0.txt'')
         = Some (render [[1, 1, 200, 10], [- 1, 15, 1], [16]])"
proof -
  have "map_sum fst
      (\<lambda>p. (fst p, files (snd p) (''generated_instances'', ''bpps_d200n1m1w10_30s2_20f1_seed0.txt'')))
      (generate_single_instance lcg_runtime unit_cfg 200 1 1
        (1 / 20) (3 / 20) (1 / 100) (1 / 10) 1 0 empty_world)
      = Inr (True, Some (render [[1, 1, 200, 10], [- 1, 15, 1], [16]]))"
    by code_simp
  then show ?thesis
    by (cases "generate_single_instance lcg_runtime unit_cfg 200 1 1
      (1 / 20) (3 / 20) (1 / 100) (1 / 10) 1 0 empty_world") auto
qed

lemma unit_run_no_costs:
  "\<exists>w'. generate_single_instance lcg_runtime unit_cfg 200 1 1
      (1 / 20) (3 / 20) (1 / 100) (1 / 10) 0 0 empty_world = Inr (True, w')
     \<and> files w' (''generated_instances'', ''bpps_d200n1m1w10_30s2_20f0_seed0.txt'')
         = Some (render [[1, 1, 200, 1], [0, 19, 1], [10]])"
proof -
  have "map_sum fst
      (\<lambda>p. (fst p, files (snd p) (''generated_instances'', ''bpps_d200n1m1w10_30s2_20f0_seed0.txt'')))
      (generate_single_instance lcg_runtime unit_cfg 200 1 1
        (1 / 20) (3 / 20) (1 / 100) (1 / 10) 0 0 empty_world)
      = Inr (True, Some (render [[1, 1, 200, 1], [0, 19, 1], [10]]))"
    by code_simp
  then show ?thesis
    by (cases "generate_single_instance lcg_runtime unit_cfg 200 1 1
      (1 / 20) (3 / 20) (1 / 100) (1 / 10) 0 0 empty_world") auto
qed

lemma unit_path_no_costs:
  "(output_directory unit_cfg, generate_filename 200 1 1 10 30 2 20 0 0) =
     (''generated_instances'', ''bpps_d200n1m1w10_30s2_20f0_seed0.txt'')"
proof -
  have "generate_filename 200 1 1 10 30 2 20 0 0 = ''bpps_d200n1m1w10_30s2_20f0_seed0.txt''"
    by code_simp
  then show ?thesis by (simp add: unit_cfg_def)
qed

lemma unit_text:
  "render [[1, 1, 200, 10], [- 1, 15, 1], [16]] =
     ''1'' @ [TAB] @ ''1'' @ [TAB] @ ''200'' @ [TAB] @ ''10'' @ [NL]
     @ ''-1'' @ [TAB] @ ''15'' @ [TAB] @ ''1'' @ [NL] @ ''16'' @ [NL]"
  by code_simp

lemma unit_path:
  "(output_directory unit_cfg, generate_filename 200 1 1 10 30 2 20 1 0) =
     (''generated_instances'', ''bpps_d200n1m1w10_30s2_20f1_seed0.txt'')"
proof -
  have "generate_filename 200 1 1 10 30 2 20 1 0 = ''bpps_d200n1m1w10_30s2_20f1_seed0.txt''"
    by code_simp
  then show ?thesis by (simp add: unit_cfg_def)
qed

text \<open>
  Claim C3. The file of an accepted instance is the rendering of the table of
  its header, its class records and its item weights: each line ends with a
  newline, and the tab-separated fields of the lines are the decimal texts of
  \<open>n, m, d\<close> and the bin cost; then, for each class that has items, in the order
  of the class indices, of the negated setup cost, the setup weight and the
  number of items; then of one item weight per line, class by class in the
  order of the class indices and within a class in the order of the draws of
  the accepted attempt.
\<close>

theorem instance_file_format:
  assumes "floor_mul R d v1 = Inr w_min" and "ceil_mul R d v2 = Inr w_max"
    and "floor_mul R d s1 = Inr s_min" and "ceil_mul R d s2 = Inr s_max"
    and "generate_single_instance R cfg d n m v1 v2 s1 s2 f seed w = Inr (True, w' :: 'g world)"
  shows "\<exists>body costs asg sws k (u :: 'g world).
      files w' (output_directory cfg, generate_filename d n m w_min w_max s_min s_max f seed)
        = Some body
      \<and> valid_draw n m w_min w_max s_min s_max f costs asg sws
      \<and> trace w' = trace u @ draw_events m w_min w_max s_min s_max f (seed + k) costs asg sws
      \<and> body = render (instance_table n m d f costs asg sws)
      \<and> newline_terminated body
      \<and> map tab_fields (file_lines body) =
          map (map str_int)
            ([n, m, d, if f = 0 then 1 else 10]
             # map (\<lambda>cl. [- (costs ! nat cl), sws ! nat cl, int (length (picks cl asg))])
                 (filter (\<lambda>cl. picks cl asg \<noteq> []) (py_range m))
             @ map (\<lambda>x. [x]) (concat (map (\<lambda>cl. picks cl asg) (py_range m))))"
proof -
  from accepted_file [OF assms] obtain costs asg sws k and u :: "'g world" where
    vd: "valid_draw n m w_min w_max s_min s_max f costs asg sws"
    and tr: "trace w' = trace u @ draw_events m w_min w_max s_min s_max f (seed + k) costs asg sws"
    and fl: "files w' (output_directory cfg, generate_filename d n m w_min w_max s_min s_max f seed)
          = Some (render (instance_table n m d f costs asg sws))"
    by blast
  have "map tab_fields (file_lines (render (instance_table n m d f costs asg sws))) =
      map (map str_int) (instance_table n m d f costs asg sws)"
    by (rule fields_render [OF instance_table_rows])
  then have "map tab_fields (file_lines (render (instance_table n m d f costs asg sws))) =
          map (map str_int)
            ([n, m, d, if f = 0 then 1 else 10]
             # map (\<lambda>cl. [- (costs ! nat cl), sws ! nat cl, int (length (picks cl asg))])
                 (filter (\<lambda>cl. picks cl asg \<noteq> []) (py_range m))
             @ map (\<lambda>x. [x]) (concat (map (\<lambda>cl. picks cl asg) (py_range m))))"
    by (simp only: instance_table_def class_rows_def weight_rows_def)
  with vd tr fl newline_terminated_render show ?thesis by blast
qed

theorem instance_file_format_witness:
  "floor_mul lcg_runtime 200 (1 / 20) = Inr 10 \<and> ceil_mul lcg_runtime 200 (3 / 20) = Inr 30
   \<and> floor_mul lcg_runtime 200 (1 / 100) = Inr 2 \<and> ceil_mul lcg_runtime 200 (1 / 10) = Inr 20
   \<and> (\<exists>w' body costs asg sws k (u :: int world).
        generate_single_instance lcg_runtime unit_cfg 200 1 1
          (1 / 20) (3 / 20) (1 / 100) (1 / 10) 1 0 empty_world = Inr (True, w')
        \<and> files w' (''generated_instances'', ''bpps_d200n1m1w10_30s2_20f1_seed0.txt'') = Some body
        \<and> valid_draw 1 1 10 30 2 20 1 costs asg sws
        \<and> trace w' = trace u @ draw_events 1 10 30 2 20 1 (0 + k) costs asg sws
        \<and> body = render (instance_table 1 1 200 1 costs asg sws)
        \<and> body = ''1'' @ [TAB] @ ''1'' @ [TAB] @ ''200'' @ [TAB] @ ''10'' @ [NL]
             @ ''-1'' @ [TAB] @ ''15'' @ [TAB] @ ''1'' @ [NL] @ ''16'' @ [NL]
        \<and> newline_terminated body
        \<and> map tab_fields (file_lines body) =
            map (map str_int)
              ([1, 1, 200, if (1::int) = 0 then 1 else 10]
               # map (\<lambda>cl. [- (costs ! nat cl), sws ! nat cl, int (length (picks cl asg))])
                   (filter (\<lambda>cl. picks cl asg \<noteq> []) (py_range 1))
               @ map (\<lambda>x. [x]) (concat (map (\<lambda>cl. picks cl asg) (py_range 1)))))"
proof -
  from unit_run obtain w' where
    run: "generate_single_instance lcg_runtime unit_cfg 200 1 1
      (1 / 20) (3 / 20) (1 / 100) (1 / 10) 1 0 empty_world = Inr (True, w')"
    and fl: "files w' (''generated_instances'', ''bpps_d200n1m1w10_30s2_20f1_seed0.txt'')
         = Some (render [[1, 1, 200, 10], [- 1, 15, 1], [16]])"
    by blast
  from instance_file_format [OF unit_bounds run] run fl unit_bounds show ?thesis
    unfolding unit_path unit_text by auto
qed


lemma picks_subset: "x \<in> set (picks cl asg) \<Longrightarrow> \<exists>p \<in> set asg. fst p = cl \<and> snd p = x"
  by (auto simp: picks_def)

lemma class_rows_counts:
  assumes "\<forall>p \<in> set asg. 0 \<le> fst p \<and> fst p \<le> m - 1"
  shows "sum_list (map (\<lambda>r. r ! 2) (class_rows m costs asg sws)) = int (length asg)"
proof -
  have "sum_list (map (\<lambda>r. r ! 2) (class_rows m costs asg sws)) =
      sum_list (map (\<lambda>cl. int (length (picks cl asg)))
        (filter (\<lambda>cl. picks cl asg \<noteq> []) (py_range m)))"
    by (simp add: class_rows_def comp_def)
  also have "\<dots> = sum_list (map (\<lambda>cl. int (length (picks cl asg))) (py_range m))"
    by (rule sum_list_map_filter) simp
  also have "\<dots> = int (\<Sum>cl\<leftarrow>py_range m. length (picks cl asg))"
    by (simp add: comp_def flip: sum_list_of_nat)
  also have "\<dots> = int (length asg)"
    by (simp only: picks_total [OF assms])
  finally show ?thesis .
qed

lemma weight_rows_count:
  assumes "\<forall>p \<in> set asg. 0 \<le> fst p \<and> fst p \<le> m - 1"
  shows "length (weight_rows m asg) = length asg"
proof -
  have "length (weight_rows m asg) = (\<Sum>cl\<leftarrow>py_range m. length (picks cl asg))"
    by (simp add: weight_rows_def length_concat comp_def)
  then show ?thesis
    by (simp only: picks_total [OF assms])
qed

lemma class_rows_all:
  assumes "enough_items m mi asg" and "1 \<le> mi"
  shows "length (class_rows m costs asg sws) = nat m"
proof -
  have "\<forall>cl \<in> set (py_range m). picks cl asg \<noteq> []"
  proof
    fix cl
    assume "cl \<in> set (py_range m)"
    with assms(1) have "mi \<le> int (length (picks cl asg))"
      by (simp add: enough_items_def)
    with assms(2) show "picks cl asg \<noteq> []" by auto
  qed
  then have "filter (\<lambda>cl. picks cl asg \<noteq> []) (py_range m) = py_range m"
    by (simp add: filter_id_conv)
  then show ?thesis
    by (simp add: class_rows_def)
qed

lemma class_rows_entries:
  assumes "r \<in> set (class_rows m costs asg sws)"
    and "length costs = nat m" and "length sws = nat m"
  shows "\<exists>c s k. r = [- c, s, k] \<and> c \<in> set costs \<and> s \<in> set sws"
proof -
  from assms(1) obtain cl where cl: "cl \<in> set (py_range m)"
    and r: "r = [- (costs ! nat cl), sws ! nat cl, int (length (picks cl asg))]"
    by (auto simp: class_rows_def)
  from cl have "nat cl < nat m" by auto
  with assms(2,3) have "costs ! nat cl \<in> set costs" and "sws ! nat cl \<in> set sws"
    by simp_all
  with r show ?thesis by blast
qed

lemma weight_rows_entries:
  assumes "r \<in> set (weight_rows m asg)"
  shows "\<exists>p \<in> set asg. r = [snd p]"
  using assms by (auto simp: weight_rows_def dest: picks_subset)

text \<open>
  Claim C7. In the file of an accepted instance (with \<open>n \<ge> 0\<close>), the item counts
  of the class-record lines add up to \<open>n\<close>, and there are \<open>n\<close> item-weight lines.
\<close>

theorem item_counts_sum_to_n:
  assumes "floor_mul R d v1 = Inr w_min" and "ceil_mul R d v2 = Inr w_max"
    and "floor_mul R d s1 = Inr s_min" and "ceil_mul R d s2 = Inr s_max"
    and "generate_single_instance R cfg d n m v1 v2 s1 s2 f seed w = Inr (True, w')"
    and "0 \<le> n"
  shows "\<exists>body.
      files w' (output_directory cfg, generate_filename d n m w_min w_max s_min s_max f seed)
        = Some body
      \<and> sum_list (map (\<lambda>r. r ! 2) (record_rows body)) = n
      \<and> int (length (item_rows body)) = n"
proof -
  from accepted_file [OF assms(1-5)] obtain costs asg sws where
    vd: "valid_draw n m w_min w_max s_min s_max f costs asg sws"
    and fl: "files w' (output_directory cfg, generate_filename d n m w_min w_max s_min s_max f seed)
          = Some (render (instance_table n m d f costs asg sws))"
    by blast
  from vd have len: "length asg = nat n"
    and rng: "\<forall>p \<in> set asg. 0 \<le> fst p \<and> fst p \<le> m - 1"
    by (simp_all add: valid_draw_def)
  have "sum_list (map (\<lambda>r. r ! 2) (record_rows (render (instance_table n m d f costs asg sws))))
      = n"
    using class_rows_counts [OF rng, of costs sws] len assms(6)
    by (simp add: rows_of_instance)
  moreover have "int (length (item_rows (render (instance_table n m d f costs asg sws)))) = n"
    using weight_rows_count [OF rng] len assms(6)
    by (simp add: rows_of_instance)
  ultimately show ?thesis
    using fl by blast
qed

theorem item_counts_sum_to_n_witness:
  "floor_mul lcg_runtime 200 (1 / 20) = Inr 10 \<and> ceil_mul lcg_runtime 200 (3 / 20) = Inr 30
   \<and> floor_mul lcg_runtime 200 (1 / 100) = Inr 2 \<and> ceil_mul lcg_runtime 200 (1 / 10) = Inr 20
   \<and> (0::int) \<le> 1
   \<and> (\<exists>w' body.
        generate_single_instance lcg_runtime unit_cfg 200 1 1
          (1 / 20) (3 / 20) (1 / 100) (1 / 10) 1 0 empty_world = Inr (True, w')
        \<and> files w' (''generated_instances'', ''bpps_d200n1m1w10_30s2_20f1_seed0.txt'') = Some body
        \<and> sum_list (map (\<lambda>r. r ! 2) (record_rows body)) = 1
        \<and> int (length (item_rows body)) = 1)"
proof -
  from unit_run obtain w' where
    run: "generate_single_instance lcg_runtime unit_cfg 200 1 1
      (1 / 20) (3 / 20) (1 / 100) (1 / 10) 1 0 empty_world = Inr (True, w')"
    by blast
  have n: "(0::int) \<le> 1" by simp
  from item_counts_sum_to_n [OF unit_bounds run n] run unit_bounds show ?thesis
    unfolding unit_path by auto
qed

text \<open>
  Claim C9. With \<open>min_items_per_class \<ge> 1\<close>, the file of an accepted instance has
  exactly \<open>m\<close> class-record lines: no class is left out.
\<close>

theorem class_record_count:
  assumes "floor_mul R d v1 = Inr w_min" and "ceil_mul R d v2 = Inr w_max"
    and "floor_mul R d s1 = Inr s_min" and "ceil_mul R d s2 = Inr s_max"
    and "generate_single_instance R cfg d n m v1 v2 s1 s2 f seed w = Inr (True, w')"
    and "1 \<le> min_items_per_class cfg"
  shows "\<exists>body.
      files w' (output_directory cfg, generate_filename d n m w_min w_max s_min s_max f seed)
        = Some body
      \<and> int (length (record_rows body)) = m"
proof -
  from accepted_file [OF assms(1-5)] obtain costs asg sws where
    m: "1 \<le> m"
    and en: "enough_items m (min_items_per_class cfg) asg"
    and fl: "files w' (output_directory cfg, generate_filename d n m w_min w_max s_min s_max f seed)
          = Some (render (instance_table n m d f costs asg sws))"
    by blast
  have "int (length (record_rows (render (instance_table n m d f costs asg sws)))) = m"
    using class_rows_all [OF en assms(6), of costs sws] m
    by (simp add: rows_of_instance)
  with fl show ?thesis by blast
qed

theorem class_record_count_witness:
  "floor_mul lcg_runtime 200 (1 / 20) = Inr 10 \<and> ceil_mul lcg_runtime 200 (3 / 20) = Inr 30
   \<and> floor_mul lcg_runtime 200 (1 / 100) = Inr 2 \<and> ceil_mul lcg_runtime 200 (1 / 10) = Inr 20
   \<and> 1 \<le> min_items_per_class unit_cfg
   \<and> (\<exists>w' body.
        generate_single_instance lcg_runtime unit_cfg 200 1 1
          (1 / 20) (3 / 20) (1 / 100) (1 / 10) 1 0 empty_world = Inr (True, w')
        \<and> files w' (''generated_instances'', ''bpps_d200n1m1w10_30s2_20f1_seed0.txt'') = Some body
        \<and> int (length (record_rows body)) = 1)"
proof -
  from unit_run obtain w' where
    run: "generate_single_instance lcg_runtime unit_cfg 200 1 1
      (1 / 20) (3 / 20) (1 / 100) (1 / 10) 1 0 empty_world = Inr (True, w')"
    by blast
  have mi: "1 \<le> min_items_per_class unit_cfg" by (simp add: unit_cfg_def)
  from class_record_count [OF unit_bounds run mi] run unit_bounds mi show ?thesis
    unfolding unit_path by auto
qed

text \<open>
  Claim C4. In the file of an accepted instance, with the bounds
  \<open>w_min = floor (d * v1)\<close>, \<open>w_max = ceil (d * v2)\<close>, \<open>s_min = floor (d * s1)\<close> and
  \<open>s_max = ceil (d * s2)\<close> as the builder computes them, every item-weight line
  holds one weight in \<open>[w_min, w_max]\<close>, and the setup weight of every
  class-record line lies in \<open>[s_min, s_max]\<close>.
\<close>

theorem weights_within_bounds:
  assumes "floor_mul R d v1 = Inr w_min" and "ceil_mul R d v2 = Inr w_max"
    and "floor_mul R d s1 = Inr s_min" and "ceil_mul R d s2 = Inr s_max"
    and "generate_single_instance R cfg d n m v1 v2 s1 s2 f seed w = Inr (True, w')"
  shows "\<exists>body.
      files w' (output_directory cfg, generate_filename d n m w_min w_max s_min s_max f seed)
        = Some body
      \<and> (\<forall>r \<in> set (item_rows body). \<exists>x. r = [x] \<and> w_min \<le> x \<and> x \<le> w_max)
      \<and> (\<forall>r \<in> set (record_rows body). length r = 3 \<and> s_min \<le> r ! 1 \<and> r ! 1 \<le> s_max)"
proof -
  from accepted_file [OF assms] obtain costs asg sws where
    vd: "valid_draw n m w_min w_max s_min s_max f costs asg sws"
    and fl: "files w' (output_directory cfg, generate_filename d n m w_min w_max s_min s_max f seed)
          = Some (render (instance_table n m d f costs asg sws))"
    by blast
  from vd have len: "length costs = nat m" "length sws = nat m"
    and a_rng: "\<forall>p \<in> set asg. w_min \<le> snd p \<and> snd p \<le> w_max"
    and s_rng: "\<forall>s \<in> set sws. s_min \<le> s \<and> s \<le> s_max"
    by (simp_all add: valid_draw_def)
  have "\<forall>r \<in> set (weight_rows m asg). \<exists>x. r = [x] \<and> w_min \<le> x \<and> x \<le> w_max"
    using a_rng by (auto dest!: weight_rows_entries)
  moreover have "\<forall>r \<in> set (class_rows m costs asg sws).
      length r = 3 \<and> s_min \<le> r ! 1 \<and> r ! 1 \<le> s_max"
    using s_rng by (auto dest!: class_rows_entries [OF _ len])
  ultimately show ?thesis
    using fl by (intro exI [of _ "render (instance_table n m d f costs asg sws)"])
      (simp add: rows_of_instance)
qed

theorem weights_within_bounds_witness:
  "floor_mul lcg_runtime 200 (1 / 20) = Inr 10 \<and> ceil_mul lcg_runtime 200 (3 / 20) = Inr 30
   \<and> floor_mul lcg_runtime 200 (1 / 100) = Inr 2 \<and> ceil_mul lcg_runtime 200 (1 / 10) = Inr 20
   \<and> (\<exists>w' body.
        generate_single_instance lcg_runtime unit_cfg 200 1 1
          (1 / 20) (3 / 20) (1 / 100) (1 / 10) 1 0 empty_world = Inr (True, w')
        \<and> files w' (''generated_instances'', ''bpps_d200n1m1w10_30s2_20f1_seed0.txt'') = Some body
        \<and> (\<forall>r \<in> set (item_rows body). \<exists>x. r = [x] \<and> 10 \<le> x \<and> x \<le> 30)
        \<and> (\<forall>r \<in> set (record_rows body). length r = 3 \<and> 2 \<le> r ! 1 \<and> r ! 1 \<le> 20))"
proof -
  from unit_run obtain w' where
    run: "generate_single_instance lcg_runtime unit_cfg 200 1 1
      (1 / 20) (3 / 20) (1 / 100) (1 / 10) 1 0 empty_world = Inr (True, w')"
    by blast
  from weights_within_bounds [OF unit_bounds run] run unit_bounds show ?thesis
    unfolding unit_path by auto
qed

text \<open>
  Claim C6. In the file of an accepted instance, the bin cost of the header is
  1 when \<open>f = 0\<close> and 10 otherwise, and the setup cost of every class record
  (written negated) is 0 when \<open>f = 0\<close> and lies in \<open>[1, 5]\<close> otherwise, in
  particular when \<open>f = 1\<close>.
\<close>

theorem setup_costs_by_flag:
  assumes "floor_mul R d v1 = Inr w_min" and "ceil_mul R d v2 = Inr w_max"
    and "floor_mul R d s1 = Inr s_min" and "ceil_mul R d s2 = Inr s_max"
    and "generate_single_instance R cfg d n m v1 v2 s1 s2 f seed w = Inr (True, w')"
  shows "\<exists>body.
      files w' (output_directory cfg, generate_filename d n m w_min w_max s_min s_max f seed)
        = Some body
      \<and> header_row body = [n, m, d, if f = 0 then 1 else 10]
      \<and> (\<forall>r \<in> set (record_rows body).
            if f = 0 then r ! 0 = 0 else 1 \<le> - (r ! 0) \<and> - (r ! 0) \<le> 5)"
proof -
  from accepted_file [OF assms] obtain costs asg sws where
    vd: "valid_draw n m w_min w_max s_min s_max f costs asg sws"
    and fl: "files w' (output_directory cfg, generate_filename d n m w_min w_max s_min s_max f seed)
          = Some (render (instance_table n m d f costs asg sws))"
    by blast
  from vd have len: "length costs = nat m" "length sws = nat m"
    and c_rng: "if f = 0 then costs = replicate (nat m) 0 else \<forall>c \<in> set costs. 1 \<le> c \<and> c \<le> 5"
    by (simp_all add: valid_draw_def)
  have "\<forall>r \<in> set (class_rows m costs asg sws).
      if f = 0 then r ! 0 = 0 else 1 \<le> - (r ! 0) \<and> - (r ! 0) \<le> 5"
  proof
    fix r
    assume "r \<in> set (class_rows m costs asg sws)"
    from class_rows_entries [OF this len] obtain c s k where
      "r = [- c, s, k]" "c \<in> set costs"
      by blast
    with c_rng show "if f = 0 then r ! 0 = 0 else 1 \<le> - (r ! 0) \<and> - (r ! 0) \<le> 5"
      by (auto split: if_splits)
  qed
  with fl show ?thesis
    by (intro exI [of _ "render (instance_table n m d f costs asg sws)"])
      (simp add: rows_of_instance)
qed

theorem setup_costs_by_flag_witness:
  "floor_mul lcg_runtime 200 (1 / 20) = Inr 10 \<and> ceil_mul lcg_runtime 200 (3 / 20) = Inr 30
   \<and> floor_mul lcg_runtime 200 (1 / 100) = Inr 2 \<and> ceil_mul lcg_runtime 200 (1 / 10) = Inr 20
   \<and> (\<exists>w' body.
        generate_single_instance lcg_runtime unit_cfg 200 1 1
          (1 / 20) (3 / 20) (1 / 100) (1 / 10) 1 0 empty_world = Inr (True, w')
        \<and> files w' (''generated_instances'', ''bpps_d200n1m1w10_30s2_20f1_seed0.txt'') = Some body
        \<and> header_row body = [1, 1, 200, 10]
        \<and> (\<forall>r \<in> set (record_rows body). 1 \<le> - (r ! 0) \<and> - (r ! 0) \<le> 5))
   \<and> (\<exists>w' body.
        generate_single_instance lcg_runtime unit_cfg 200 1 1
          (1 / 20) (3 / 20) (1 / 100) (1 / 10) 0 0 empty_world = Inr (True, w')
        \<and> files w' (''generated_instances'', ''bpps_d200n1m1w10_30s2_20f0_seed0.txt'') = Some body
        \<and> header_row body = [1, 1, 200, 1]
        \<and> (\<forall>r \<in> set (record_rows body). r ! 0 = 0))"
proof -
  from unit_run obtain w' where
    run: "generate_single_instance lcg_runtime unit_cfg 200 1 1
      (1 / 20) (3 / 20) (1 / 100) (1 / 10) 1 0 empty_world = Inr (True, w')"
    by blast
  from unit_run_no_costs obtain u' where
    run0: "generate_single_instance lcg_runtime unit_cfg 200 1 1
      (1 / 20) (3 / 20) (1 / 100) (1 / 10) 0 0 empty_world = Inr (True, u')"
    by blast
  have "\<exists>w' body.
        generate_single_instance lcg_runtime unit_cfg 200 1 1
          (1 / 20) (3 / 20) (1 / 100) (1 / 10) 1 0 empty_world = Inr (True, w')
        \<and> files w' (''generated_instances'', ''bpps_d200n1m1w10_30s2_20f1_seed0.txt'') = Some body
        \<and> header_row body = [1, 1, 200, 10]
        \<and> (\<forall>r \<in> set (record_rows body). 1 \<le> - (r ! 0) \<and> - (r ! 0) \<le> 5)"
    using setup_costs_by_flag [OF unit_bounds run] run unfolding unit_path by auto
  moreover have "\<exists>w' body.
        generate_single_instance lcg_runtime unit_cfg 200 1 1
          (1 / 20) (3 / 20) (1 / 100) (1 / 10) 0 0 empty_world = Inr (True, w')
        \<and> files w' (''generated_instances'', ''bpps_d200n1m1w10_30s2_20f0_seed0.txt'') = Some body
        \<and> header_row body = [1, 1, 200, 1]
        \<and> (\<forall>r \<in> set (record_rows body). r ! 0 = 0)"
    using setup_costs_by_flag [OF unit_bounds run0] run0 unfolding unit_path_no_costs by auto
  ultimately show ?thesis
    using unit_bounds by blast
qed

end
